theory Spec2Isabelle
  imports Main
begin

section \<open>Span metrics: data model\<close>

text \<open>
  The embedding follows \<^verbatim>\<open>pkg/metrics/span_metric.go\<close> (the compiler of span metric
  definitions into a materialized view) and the token cursor of the UPQL lexer printed
  in the same source file. Go strings and byte slices are \<^typ>\<open>string\<close> (a list of bytes);
  a \<^verbatim>\<open>nil\<close> byte slice is \<^term>\<open>None\<close> where the code tests for it.
\<close>

text \<open>
  The errors of the compiler are the \<^verbatim>\<open>fmt.Errorf\<close> values of the source, one term for
  each message; the argument is the value the message prints. The two errors of
  \<^verbatim>\<open>compileSpanMetricValue\<close> about the shape of the metric value are the two faults of
  \<open>MalformedMetricValue\<close>.
\<close>

datatype value_fault =
    CantParse string
      \<comment> \<open>\<^verbatim>\<open>can't parse metric value: %q\<close>\<close>
  | UnsupportedAST string
      \<comment> \<open>\<^verbatim>\<open>unsupported metric value AST: %T\<close>\<close>

datatype error =
    StoreError string
      \<comment> \<open>an error returned by the store when the view is dropped or created\<close>
  | MalformedMetricValue value_fault
  | UnsupportedExpression string
      \<comment> \<open>\<^verbatim>\<open>unsupported span metric expr: %T\<close>\<close>
  | MalformedMetricWhere string
      \<comment> \<open>\<^verbatim>\<open>can't parse metric where: %q\<close>\<close>
  | AggregateInFilter string
      \<comment> \<open>\<^verbatim>\<open>can't filter by agg columns: %q\<close>\<close>
  | UnsupportedInstrument string
      \<comment> \<open>\<^verbatim>\<open>unsupported instrument: %q\<close>\<close>

text \<open>
  The expression nodes the compiler's type switch tells apart. \<^verbatim>\<open>ast.Expr\<close> is an open
  interface: \<open>OtherExpr\<close> stands for a node of any other type and carries the type name
  that \<^verbatim>\<open>%T\<close> prints.
\<close>

datatype expr =
    Name string string        \<comment> \<open>\<^verbatim>\<open>ast.Name{Func, Name}\<close>\<close>
  | Number string             \<comment> \<open>\<^verbatim>\<open>ast.Number{Text}\<close>\<close>
  | ParenExpr expr            \<comment> \<open>\<^verbatim>\<open>ast.ParenExpr{Expr}\<close>\<close>
  | BinaryExpr expr string expr  \<comment> \<open>\<^verbatim>\<open>ast.BinaryExpr{LHS, Op, RHS}\<close>\<close>
  | OtherExpr string

text \<open>
  What \<^verbatim>\<open>upql.Parse\<close> returns in \<^verbatim>\<open>part.AST\<close>: a selector, whose \<^verbatim>\<open>Expr.Expr\<close> is the
  value expression, or a node of another type (named as \<^verbatim>\<open>%T\<close> prints it).
\<close>

datatype upql_ast =
    Selector expr
  | OtherAST string

text \<open>\<^verbatim>\<open>tracingupql.Name\<close>, the argument of the column helpers.\<close>

record name =
  FuncName :: string
  AttrKey :: string

text \<open>
  A filter condition of \<^verbatim>\<open>tracingupql.Where\<close>. The source reads \<^verbatim>\<open>cond.Sep.Op\<close>,
  \<^verbatim>\<open>cond.Sep.Negate\<close> and \<^verbatim>\<open>cond.Left\<close>; the operator and the right-hand side are only
  seen by \<^verbatim>\<open>tracing.CompileCond\<close>. The operator of the condition is named \<open>CondOp\<close>
  to keep it apart from the separator's \<open>Op\<close>.
\<close>

record cond_sep =
  Op :: string
  Negate :: bool

record cond =
  Sep :: cond_sep
  Left :: name
  CondOp :: string
  Right :: string

datatype tracing_ast =
    Where "cond list"
  | OtherTracingAST string

text \<open>
  The metric instrument. The four constants \<^verbatim>\<open>GaugeInstrument\<close>, \<^verbatim>\<open>AdditiveInstrument\<close>,
  \<^verbatim>\<open>CounterInstrument\<close> and \<^verbatim>\<open>HistogramInstrument\<close> are declared outside the source file;
  they are distinct (they label the cases of one switch). \<open>OtherInstrument n\<close> is any
  instrument name \<open>n\<close> that is none of the four, the empty name included.
\<close>

datatype instrument =
    GaugeInstrument
  | AdditiveInstrument
  | CounterInstrument
  | HistogramInstrument
  | OtherInstrument string

text \<open>\<^verbatim>\<open>bunconf.SpanMetric\<close>, the metric definition.\<close>

record span_metric =
  MetricName :: string
  Description :: string
  Unit :: string
  Instrument :: instrument
  Value :: string
  Attrs :: "string list"
  Annotations :: "string list"
  MetricWhere :: string

text \<open>
  The query that \<^verbatim>\<open>createMatView\<close> builds. An argument of a \<^verbatim>\<open>?\<close> placeholder is a safe
  SQL fragment, a string, a list of strings (\<^verbatim>\<open>ch.In\<close>) or the instrument.
\<close>

datatype arg =
    Safe string
  | Str string
  | In "string list"
  | Instr instrument

record create_view =
  View :: string
  OnCluster :: string
  ToExpr :: string
  ColumnExprs :: "(string \<times> arg list) list"
  TableExpr :: string
  GroupExprs :: "string list"
  WhereExprs :: "string list"

text \<open>
  The collaborators of the compiler, which live outside the source file: the two parsers,
  the column helpers of package \<^verbatim>\<open>tracing\<close>, the string quoting of the store's driver and
  the store itself. Each parser returns the \<^verbatim>\<open>AST\<close> of every query part.
\<close>

record collaborators =
  ParseValue :: "string \<Rightarrow> upql_ast list"            \<comment> \<open>\<^verbatim>\<open>upql.Parse\<close>\<close>
  ParseWhere :: "string \<Rightarrow> tracing_ast list"        \<comment> \<open>\<^verbatim>\<open>tracingupql.Parse\<close>\<close>
  CHColumn :: "name \<Rightarrow> nat \<Rightarrow> string"               \<comment> \<open>the text \<^verbatim>\<open>tracing.AppendCHColumn\<close> appends\<close>
  CHAttrExpr :: "string \<Rightarrow> string"                  \<comment> \<open>the text \<^verbatim>\<open>tracing.AppendCHAttrExpr\<close> appends\<close>
  QuoteString :: "string \<Rightarrow> string"                 \<comment> \<open>the text \<^verbatim>\<open>chschema.AppendString\<close> appends\<close>
  CompileCond :: "cond \<Rightarrow> nat \<Rightarrow> string option"     \<comment> \<open>\<^verbatim>\<open>tracing.CompileCond\<close>; \<open>None\<close> is \<^verbatim>\<open>nil\<close>\<close>
  IsAggColumn :: "name \<Rightarrow> bool"                      \<comment> \<open>\<^verbatim>\<open>tracing.IsAggColumn\<close>\<close>
  Cluster :: string                                 \<comment> \<open>\<^verbatim>\<open>conf.CHSchema.Cluster\<close>\<close>
  DropView :: "string \<Rightarrow> string \<Rightarrow> error option"     \<comment> \<open>drop view if exists, on a cluster\<close>
  ExecCreateView :: "create_view \<Rightarrow> error option"   \<comment> \<open>execute the create-view query\<close>

section \<open>The expression compiler\<close>

definition spanMetricMinutes :: nat where
  "spanMetricMinutes = 1"

text \<open>
  Modelled from the spec: \<^verbatim>\<open>tracing.AppendCHColumn\<close> is not in the source file. It
  resolves a function and attribute pair with the bucket width to SQL column text, and
  as an append function it returns the buffer extended by that text.
\<close>

definition AppendCHColumn :: "collaborators \<Rightarrow> string \<Rightarrow> name \<Rightarrow> nat \<Rightarrow> string" where
  "AppendCHColumn env b n minutes = b @ CHColumn env n minutes"

text \<open>
  Modelled from the spec: \<^verbatim>\<open>tracing.AppendCHAttrExpr\<close> is not in the source file; it
  appends the attribute-access expression of an attribute.
\<close>

definition AppendCHAttrExpr :: "collaborators \<Rightarrow> string \<Rightarrow> string \<Rightarrow> string" where
  "AppendCHAttrExpr env b attr = b @ CHAttrExpr env attr"

text \<open>\<^verbatim>\<open>chschema.AppendString\<close> of the store's driver appends the quoted string.\<close>

definition AppendString :: "collaborators \<Rightarrow> string \<Rightarrow> string \<Rightarrow> string" where
  "AppendString env b x = b @ QuoteString env x"

text \<open>\<^verbatim>\<open>appendSpanMetricExpr\<close>: the type switch, one equation for each case.\<close>

fun appendSpanMetricExpr :: "collaborators \<Rightarrow> string \<Rightarrow> expr \<Rightarrow> error + string" where
  "appendSpanMetricExpr env b (Name f n) =
     Inr (AppendCHColumn env b \<lparr>FuncName = f, AttrKey = n\<rparr> spanMetricMinutes)"
| "appendSpanMetricExpr env b (Number t) = Inr (b @ t)"
| "appendSpanMetricExpr env b (ParenExpr e) =
     (case appendSpanMetricExpr env (b @ ''('') e of
        Inl err \<Rightarrow> Inl err
      | Inr b' \<Rightarrow> Inr (b' @ '')''))"
| "appendSpanMetricExpr env b (BinaryExpr lhs op rhs) =
     (case appendSpanMetricExpr env b lhs of
        Inl err \<Rightarrow> Inl err
      | Inr b' \<Rightarrow>
          (case appendSpanMetricExpr env (b' @ '' '' @ op @ '' '') rhs of
             Inl err \<Rightarrow> Inl err
           | Inr b'' \<Rightarrow> Inr b''))"
| "appendSpanMetricExpr env b (OtherExpr ty) = Inl (UnsupportedExpression ty)"

text \<open>\<^verbatim>\<open>compileSpanMetricValue\<close>.\<close>

definition compileSpanMetricValue :: "collaborators \<Rightarrow> string \<Rightarrow> error + string" where
  "compileSpanMetricValue env v =
     (let parts = ParseValue env v in
      if length parts \<noteq> 1 then Inl (MalformedMetricValue (CantParse v))
      else (case hd parts of
              OtherAST ty \<Rightarrow> Inl (MalformedMetricValue (UnsupportedAST ty))
            | Selector e \<Rightarrow> appendSpanMetricExpr env [] e))"

text \<open>\<^verbatim>\<open>compileSpanMetricAttrs\<close>: the loop over the attributes, with the index test.\<close>

fun compileSpanMetricAttrs_loop :: "collaborators \<Rightarrow> string \<Rightarrow> nat \<Rightarrow> string list \<Rightarrow> string" where
  "compileSpanMetricAttrs_loop env b i [] = b"
| "compileSpanMetricAttrs_loop env b i (attr # attrs) =
     compileSpanMetricAttrs_loop env
       (AppendCHAttrExpr env (if i > 0 then b @ '', '' else b) attr) (Suc i) attrs"

definition compileSpanMetricAttrs :: "collaborators \<Rightarrow> string list \<Rightarrow> string" where
  "compileSpanMetricAttrs env attrs = compileSpanMetricAttrs_loop env [] 0 attrs"

text \<open>\<^verbatim>\<open>compileSpanMetricAnnotations\<close>.\<close>

fun compileSpanMetricAnnotations_loop :: "collaborators \<Rightarrow> string \<Rightarrow> nat \<Rightarrow> string list \<Rightarrow> string" where
  "compileSpanMetricAnnotations_loop env b i [] = b"
| "compileSpanMetricAnnotations_loop env b i (attr # attrs) =
     compileSpanMetricAnnotations_loop env
       (AppendCHAttrExpr env
          (AppendString env (if i > 0 then b @ '', '' else b) attr @ '', toString(any('')
          attr @ ''))'')
       (Suc i) attrs"

definition compileSpanMetricAnnotations :: "collaborators \<Rightarrow> string list \<Rightarrow> string" where
  "compileSpanMetricAnnotations env attrs = compileSpanMetricAnnotations_loop env [] 0 attrs"

section \<open>The condition compiler\<close>

text \<open>\<^verbatim>\<open>strings.HasPrefix\<close>.\<close>

definition HasPrefix :: "string \<Rightarrow> string \<Rightarrow> bool" where
  "HasPrefix x p = (length x \<ge> length p \<and> take (length p) x = p)"

text \<open>The string handed to the parser: lines 229 to 231 of \<^verbatim>\<open>compileSpanMetricWhere\<close>.\<close>

definition whereQuery :: "string \<Rightarrow> string" where
  "whereQuery w = (if \<not> HasPrefix w ''where '' then ''where '' @ w else w)"

text \<open>
  The loop over \<^verbatim>\<open>ast.Conds\<close> (lines 246 to 264), with the buffer \<open>b\<close> as accumulator;
  \<open>w\<close> is the query the error message prints.
\<close>

fun compileConds :: "collaborators \<Rightarrow> string \<Rightarrow> string \<Rightarrow> cond list \<Rightarrow> error + string" where
  "compileConds env w b [] = Inr b"
| "compileConds env w b (c # cs) =
     (case CompileCond env c spanMetricMinutes of
        None \<Rightarrow> compileConds env w b cs
      | Some bb \<Rightarrow>
          if IsAggColumn env (Left c) then Inl (AggregateInFilter w)
          else
            (let b1 = (if length b > 0 then b @ Op (Sep c) @ '' '' else b);
                 b2 = (if Negate (Sep c) then b1 @ ''NOT '' else b1)
             in compileConds env w (b2 @ bb) cs))"

text \<open>\<^verbatim>\<open>compileSpanMetricWhere\<close>.\<close>

definition compileSpanMetricWhere :: "collaborators \<Rightarrow> string \<Rightarrow> error + string" where
  "compileSpanMetricWhere env w0 =
     (let w = whereQuery w0;
          parts = ParseWhere env w in
      if length parts \<noteq> 1 then Inl (MalformedMetricWhere w)
      else (case hd parts of
              OtherTracingAST ty \<Rightarrow> Inl (MalformedMetricWhere w)
            | Where conds \<Rightarrow> compileConds env w [] conds))"

section \<open>The view definition builder\<close>

text \<open>\<^verbatim>\<open>strings.ReplaceAll\<close> for one-byte \<open>old\<close> and \<open>new\<close>.\<close>

definition ReplaceAll :: "string \<Rightarrow> char \<Rightarrow> char \<Rightarrow> string" where
  "ReplaceAll x old new = map (\<lambda>c. if c = old then new else c) x"

definition viewName :: "string \<Rightarrow> string" where
  "viewName n = ''metrics_'' @ ReplaceAll n (CHR ''.'') (CHR ''_'') @ ''_mv''"

text \<open>The query before the optional parts are added (lines 84 to 94).\<close>

definition baseQuery :: "collaborators \<Rightarrow> span_metric \<Rightarrow> create_view" where
  "baseQuery env metric =
     \<lparr>View = viewName (MetricName metric),
      OnCluster = Cluster env,
      ToExpr = ''measure_minutes'',
      ColumnExprs =
        [(''s.project_id'', []),
         (''? AS metric'', [Str (MetricName metric)]),
         (''toStartOfMinute(s.time) AS time'', []),
         (''? AS instrument'', [Instr (Instrument metric)])],
      TableExpr = ''spans_index AS s'',
      GroupExprs = [''s.project_id, toStartOfMinute(s.time)''],
      WhereExprs = []\<rparr>"

definition addColumns :: "(string \<times> arg list) list \<Rightarrow> create_view \<Rightarrow> create_view" where
  "addColumns cols q = q\<lparr>ColumnExprs := ColumnExprs q @ cols\<rparr>"

text \<open>Lines 96 to 103.\<close>

definition withAttrs :: "collaborators \<Rightarrow> span_metric \<Rightarrow> create_view \<Rightarrow> create_view" where
  "withAttrs env metric q =
     (if length (Attrs metric) > 0 then
        (let attrsExpr = compileSpanMetricAttrs env (Attrs metric);
             q1 = addColumns
                    [(''xxHash64(arrayStringConcat([?], '' @ [CHR 0x27] @ ''-'' @ [CHR 0x27] @ '')) AS attrs_hash'',
                        [Safe attrsExpr]),
                     (''[?] AS attr_keys'', [In (Attrs metric)]),
                     (''[?] AS attr_values'', [Safe attrsExpr])] q
         in q1\<lparr>GroupExprs := GroupExprs q1 @ [attrsExpr]\<rparr>)
      else q)"

text \<open>Lines 105 to 108.\<close>

definition withAnnotations :: "collaborators \<Rightarrow> span_metric \<Rightarrow> create_view \<Rightarrow> create_view" where
  "withAnnotations env metric q =
     (if length (Annotations metric) > 0 then
        addColumns
          [(''toJSONString(map(?)) AS annotations'',
              [Safe (compileSpanMetricAnnotations env (Annotations metric))])] q
      else q)"

text \<open>Lines 110 to 118: the filter, when the metric has one.\<close>

definition withWhere :: "collaborators \<Rightarrow> span_metric \<Rightarrow> create_view \<Rightarrow> error + create_view" where
  "withWhere env metric q =
     (if MetricWhere metric \<noteq> [] then
        (case compileSpanMetricWhere env (MetricWhere metric) of
           Inl err \<Rightarrow> Inl err
         | Inr whereExpr \<Rightarrow>
             if whereExpr \<noteq> [] then Inr (q\<lparr>WhereExprs := WhereExprs q @ [whereExpr]\<rparr>)
             else Inr q)
      else Inr q)"

text \<open>Lines 120 to 133: the switch on the instrument.\<close>

fun withInstrument :: "instrument \<Rightarrow> string \<Rightarrow> create_view \<Rightarrow> error + create_view" where
  "withInstrument GaugeInstrument valueExpr q =
     Inr (addColumns [(''? AS value'', [Safe valueExpr])] q)"
| "withInstrument AdditiveInstrument valueExpr q =
     Inr (addColumns [(''? AS value'', [Safe valueExpr])] q)"
| "withInstrument CounterInstrument valueExpr q =
     Inr (addColumns [(''? AS sum'', [Safe valueExpr])] q)"
| "withInstrument HistogramInstrument valueExpr q =
     Inr (addColumns
            [(''count() AS count'', []),
             (''sum(?) AS sum'', [Safe valueExpr]),
             (''quantilesBFloat16State(0.5)(toFloat32(?)) AS histogram'', [Safe valueExpr])] q)"
| "withInstrument (OtherInstrument n) valueExpr q = Inl (UnsupportedInstrument n)"

text \<open>The final \<^verbatim>\<open>q.Exec\<close>: the store's error, or the query that was executed.\<close>

definition execView :: "collaborators \<Rightarrow> create_view \<Rightarrow> error + create_view" where
  "execView env q = (case ExecCreateView env q of Some err \<Rightarrow> Inl err | None \<Rightarrow> Inr q)"

text \<open>
  \<^verbatim>\<open>createMatView\<close>. The result is the error the function returns, or the query it has
  executed on the store.
\<close>

definition createMatView :: "collaborators \<Rightarrow> span_metric \<Rightarrow> error + create_view" where
  "createMatView env metric =
     (case DropView env (viewName (MetricName metric)) (Cluster env) of
        Some err \<Rightarrow> Inl err
      | None \<Rightarrow>
          (case compileSpanMetricValue env (Value metric) of
             Inl err \<Rightarrow> Inl err
           | Inr valueExpr \<Rightarrow>
               (case withWhere env metric
                       (withAnnotations env metric (withAttrs env metric (baseQuery env metric))) of
                  Inl err \<Rightarrow> Inl err
                | Inr q \<Rightarrow>
                    (case withInstrument (Instrument metric) valueExpr q of
                       Inl err \<Rightarrow> Inl err
                     | Inr q' \<Rightarrow> execView env q'))))"

section \<open>The byte cursor\<close>

text \<open>
  Modelled from the spec: package \<^verbatim>\<open>bunlex\<close> is not in the source file. Its lexer is a
  cursor over the bytes of the source string: \<open>Valid\<close> says whether a byte is left,
  \<open>NextByte\<close> reads one and moves on, \<open>PeekByte\<close> reads without moving, \<open>Advance\<close> and
  \<open>Rewind\<close> move by one byte, \<open>Pos\<close> is the offset. \<open>Number\<close> consumes digits and an
  optional fractional part and returns the text consumed. \<open>ReadUnquoted\<close> consumes up
  to the matching unescaped closing quote and returns the unescaped text, or fails when
  the input ends first.
\<close>

record bunlex =
  bl_s :: string
  bl_i :: nat

datatype lex_error = UnterminatedLiteral nat

text \<open>
  Modelled from the spec: the byte classes of \<^verbatim>\<open>bunlex\<close>: whitespace (space, tab, line
  feed, carriage return), decimal digits, ASCII letters, and letters or digits.
\<close>

definition IsWhitespace :: "char \<Rightarrow> bool" where
  "IsWhitespace c = (c \<in> set [CHR '' '', CHR 0x09, CHR 0x0A, CHR 0x0D])"

definition IsDigit :: "char \<Rightarrow> bool" where
  "IsDigit c = (c \<in> set ''0123456789'')"

definition IsAlpha :: "char \<Rightarrow> bool" where
  "IsAlpha c = (c \<in> set ''abcdefghijklmnopqrstuvwxyzABCDEFGHIJKLMNOPQRSTUVWXYZ'')"

definition IsAlnum :: "char \<Rightarrow> bool" where
  "IsAlnum c = (IsAlpha c \<or> IsDigit c)"

text \<open>
  Modelled from the spec: the cursor operations of \<^verbatim>\<open>bunlex.Lexer\<close>. At the end of the
  input \<open>NextByte\<close> and \<open>PeekByte\<close> return the zero byte and do not move.
\<close>

definition lex_Reset :: "string \<Rightarrow> bunlex" where
  "lex_Reset x = \<lparr>bl_s = x, bl_i = 0\<rparr>"

definition lex_Valid :: "bunlex \<Rightarrow> bool" where
  "lex_Valid lx = (bl_i lx < length (bl_s lx))"

definition lex_Pos :: "bunlex \<Rightarrow> nat" where
  "lex_Pos lx = bl_i lx"

definition lex_NextByte :: "bunlex \<Rightarrow> char \<times> bunlex" where
  "lex_NextByte lx =
     (if lex_Valid lx then (bl_s lx ! bl_i lx, lx\<lparr>bl_i := bl_i lx + 1\<rparr>) else (CHR 0x00, lx))"

definition lex_PeekByte :: "bunlex \<Rightarrow> char" where
  "lex_PeekByte lx = (if lex_Valid lx then bl_s lx ! bl_i lx else CHR 0x00)"

definition lex_Advance :: "bunlex \<Rightarrow> bunlex" where
  "lex_Advance lx = lx\<lparr>bl_i := bl_i lx + 1\<rparr>"

definition lex_Rewind :: "bunlex \<Rightarrow> bunlex" where
  "lex_Rewind lx = lx\<lparr>bl_i := bl_i lx - 1\<rparr>"

text \<open>
  Modelled from the spec: \<^verbatim>\<open>bunlex.Lexer.Number\<close> consumes the digits at the cursor and an
  optional fractional part (a point and the digits after it), and returns the text it
  has consumed.
\<close>

definition lex_Number :: "bunlex \<Rightarrow> string \<times> bunlex" where
  "lex_Number lx =
     (let rest = drop (bl_i lx) (bl_s lx);
          whole = takeWhile IsDigit rest;
          frac = (case drop (length whole) rest of
                    [] \<Rightarrow> []
                  | c # cs \<Rightarrow> if c = CHR ''.'' then c # takeWhile IsDigit cs else []);
          num = whole @ frac
      in (num, lx\<lparr>bl_i := bl_i lx + length num\<rparr>))"

text \<open>
  Modelled from the spec: \<^verbatim>\<open>bunlex.Lexer.ReadUnquoted\<close>. \<open>unquote\<close> is the text up to the
  closing quote \<open>q\<close>, with the number of bytes consumed (the closing quote included); a
  backslash keeps the byte after it. When the input ends before the closing quote the
  read fails, with the offset where it began, and the cursor is at the end of the input.
\<close>

fun unquote :: "char \<Rightarrow> string \<Rightarrow> (string \<times> nat) option" where
  "unquote q [] = None"
| "unquote q [c] = (if c = q then Some ([], 1) else None)"
| "unquote q (c # d # ds) =
     (if c = q then Some ([], 1)
      else if c = CHR 0x5C then map_option (\<lambda>(t, n). (d # t, n + 2)) (unquote q ds)
      else map_option (\<lambda>(t, n). (c # t, n + 1)) (unquote q (d # ds)))"

definition lex_ReadUnquoted :: "bunlex \<Rightarrow> char \<Rightarrow> (lex_error + string) \<times> bunlex" where
  "lex_ReadUnquoted lx q =
     (case unquote q (drop (bl_i lx) (bl_s lx)) of
        None \<Rightarrow> (Inl (UnterminatedLiteral (bl_i lx)), lx\<lparr>bl_i := length (bl_s lx)\<rparr>)
      | Some (t, n) \<Rightarrow> (Inr t, lx\<lparr>bl_i := bl_i lx + n\<rparr>))"

section \<open>The token cursor\<close>

datatype TokenID = EOF_TOKEN | BYTE_TOKEN | IDENT_TOKEN | VALUE_TOKEN | NUMBER_TOKEN

record token =
  ID :: TokenID
  Text :: string
  Start :: nat

text \<open>The shared end-of-input token.\<close>

definition eofToken :: token where
  "eofToken = \<lparr>ID = EOF_TOKEN, Text = [], Start = 0\<rparr>"

text \<open>
  The lexer of the source: the field \<^verbatim>\<open>s\<close> is \<open>source\<close> here. Positions are offsets and
  indices that the code never makes negative, so they are natural numbers.
\<close>

record lexer =
  source :: string
  lex :: bunlex
  ignoreSpaces :: bool
  tokens :: "token list"
  pos :: nat

text \<open>The Go slice \<^verbatim>\<open>s[a:b]\<close>, for \<open>a \<le> b \<le> len(s)\<close>.\<close>

definition slice :: "string \<Rightarrow> nat \<Rightarrow> nat \<Rightarrow> string" where
  "slice x a b = take (b - a) (drop a x)"

text \<open>\<^verbatim>\<open>lexer.Reset\<close>, \<^verbatim>\<open>newLexer\<close> and \<^verbatim>\<open>lexer.IgnoreSpaces\<close>.\<close>

definition Reset :: "lexer \<Rightarrow> string \<Rightarrow> lexer" where
  "Reset l x = l\<lparr>ignoreSpaces := False, tokens := [], pos := 0, source := x, lex := lex_Reset x\<rparr>"

definition newLexer :: "string \<Rightarrow> lexer" where
  "newLexer x =
     Reset \<lparr>source = [], lex = lex_Reset [], ignoreSpaces = False, tokens = [], pos = 0\<rparr> x"

definition IgnoreSpaces :: "lexer \<Rightarrow> lexer" where
  "IgnoreSpaces l = l\<lparr>ignoreSpaces := True\<rparr>"

text \<open>\<^verbatim>\<open>isIdentChar\<close>.\<close>

definition isIdentChar :: "char \<Rightarrow> bool" where
  "isIdentChar c = (IsAlnum c \<or> c = CHR ''_'' \<or> c = CHR ''.'')"

text \<open>\<^verbatim>\<open>lexer.token\<close> appends the token to the cache and returns it.\<close>

definition token :: "lexer \<Rightarrow> TokenID \<Rightarrow> string \<Rightarrow> nat \<Rightarrow> token \<times> lexer" where
  "token l tid x start =
     (let tok = \<lparr>ID = tid, Text = x, Start = start\<rparr>
      in (tok, l\<lparr>tokens := tokens l @ [tok]\<rparr>))"

text \<open>\<^verbatim>\<open>lexer.charToken\<close>: the byte just read, as a token.\<close>

definition charToken :: "lexer \<Rightarrow> TokenID \<Rightarrow> token \<times> lexer" where
  "charToken l tid =
     (let p = lex_Pos (lex l) in token l tid (slice (source l) (p - 1) p) (p - 1))"

text \<open>
  \<^verbatim>\<open>lexer.quotedValue\<close>: the opening quote has been read; on an error no token is
  cached.
\<close>

definition quotedValue :: "lexer \<Rightarrow> char \<Rightarrow> (lex_error + token) \<times> lexer" where
  "quotedValue l endq =
     (let start = lex_Pos (lex l) - 1;
          (r, lx) = lex_ReadUnquoted (lex l) endq
      in case r of
           Inl err \<Rightarrow> (Inl err, l\<lparr>lex := lx\<rparr>)
         | Inr x \<Rightarrow>
             (let tok = \<lparr>ID = VALUE_TOKEN, Text = x, Start = start\<rparr>
              in (Inr tok, l\<lparr>lex := lx, tokens := tokens l @ [tok]\<rparr>)))"

text \<open>
  \<^verbatim>\<open>lexer.number\<close>: Go evaluates the arguments of the call from left to right, so
  \<^verbatim>\<open>l.lex.Number()\<close> has moved the cursor when \<^verbatim>\<open>l.lex.Pos()\<close> is read.
\<close>

definition number :: "lexer \<Rightarrow> token \<times> lexer" where
  "number l =
     (let (x, lx) = lex_Number (lex l)
      in token (l\<lparr>lex := lx\<rparr>) NUMBER_TOKEN x (lex_Pos lx))"

text \<open>The loop of \<^verbatim>\<open>lexer.ident\<close>.\<close>

function ident_loop :: "bunlex \<Rightarrow> bunlex" where
  "ident_loop lx =
     (if lex_Valid lx then
        (if \<not> isIdentChar (lex_PeekByte lx) then lx else ident_loop (lex_Advance lx))
      else lx)"
  by pat_completeness auto
termination
  by (relation "measure (\<lambda>lx. length (bl_s lx) - bl_i lx)")
     (auto simp: lex_Valid_def lex_Advance_def)

declare ident_loop.simps [simp del]

definition ident :: "lexer \<Rightarrow> nat \<Rightarrow> token \<times> lexer" where
  "ident l start =
     (let lx = ident_loop (lex l);
          x = slice (source l) start (lex_Pos lx)
      in token (l\<lparr>lex := lx\<rparr>) IDENT_TOKEN x start)"

text \<open>A token returned with a \<^verbatim>\<open>nil\<close> error.\<close>

definition wrap :: "token \<times> lexer \<Rightarrow> (lex_error + token) \<times> lexer" where
  "wrap r = (Inr (fst r), snd r)"

text \<open>
  \<^verbatim>\<open>lexer.readToken\<close>: the switch on the byte read, then the tests in the order of the
  source. The recursive call skips a whitespace byte when \<^verbatim>\<open>ignoreSpaces\<close> is set.
\<close>

function readToken :: "lexer \<Rightarrow> (lex_error + token) \<times> lexer" where
  "readToken l =
     (if \<not> lex_Valid (lex l) then (Inr eofToken, l)
      else
        (let c = fst (lex_NextByte (lex l));
             l1 = l\<lparr>lex := snd (lex_NextByte (lex l))\<rparr>
         in if c = CHR 0x27 \<or> c = CHR 0x22 then quotedValue l1 c
            else if c = CHR ''('' \<or> c = CHR '')'' \<or> c = CHR '','' then wrap (charToken l1 BYTE_TOKEN)
            else if c = CHR ''_'' then wrap (ident l1 (lex_Pos (lex l1) - 1))
            else if c = CHR ''$'' then wrap (ident l1 (lex_Pos (lex l1) - 1))
            else if ignoreSpaces l1 \<and> IsWhitespace c then readToken l1
            else if IsDigit c then wrap (number (l1\<lparr>lex := lex_Rewind (lex l1)\<rparr>))
            else if IsAlpha c then wrap (ident l1 (lex_Pos (lex l1) - 1))
            else wrap (charToken l1 BYTE_TOKEN)))"
  by pat_completeness auto
termination
  by (relation "measure (\<lambda>l. length (bl_s (lex l)) - bl_i (lex l))")
     (auto simp: lex_Valid_def lex_NextByte_def)

declare readToken.simps [simp del]

text \<open>
  \<^verbatim>\<open>lexer.PeekToken\<close> replays a cached token or reads one; \<^verbatim>\<open>lexer.NextToken\<close> moves the
  position after every peek that is not an error.
\<close>

definition PeekToken :: "lexer \<Rightarrow> (lex_error + token) \<times> lexer" where
  "PeekToken l =
     (if pos l < length (tokens l) then (Inr (tokens l ! pos l), l) else readToken l)"

definition NextToken :: "lexer \<Rightarrow> (lex_error + token) \<times> lexer" where
  "NextToken l =
     (case PeekToken l of
        (Inl err, l') \<Rightarrow> (Inl err, l')
      | (Inr tok, l') \<Rightarrow> (Inr tok, l'\<lparr>pos := pos l' + 1\<rparr>))"

definition Pos :: "lexer \<Rightarrow> nat" where
  "Pos l = pos l"

definition ResetPos :: "lexer \<Rightarrow> nat \<Rightarrow> lexer" where
  "ResetPos l p = l\<lparr>pos := p\<rparr>"

text \<open>
  A caller's use of the cursor: a sequence of operations. The positions that \<open>Pos\<close> has
  returned are recorded, and \<open>ResetPos\<close> is applied to a recorded position only (the run
  is \<open>None\<close> otherwise).
\<close>

datatype lexer_op = OpPeekToken | OpNextToken | OpPos | OpResetPos nat

fun apply_op :: "lexer \<times> nat list \<Rightarrow> lexer_op \<Rightarrow> (lexer \<times> nat list) option" where
  "apply_op (l, seen) OpPeekToken = Some (snd (PeekToken l), seen)"
| "apply_op (l, seen) OpNextToken = Some (snd (NextToken l), seen)"
| "apply_op (l, seen) OpPos = Some (l, Pos l # seen)"
| "apply_op (l, seen) (OpResetPos p) =
     (if p \<in> set seen then Some (ResetPos l p, seen) else None)"

fun run_ops :: "lexer \<times> nat list \<Rightarrow> lexer_op list \<Rightarrow> (lexer \<times> nat list) option" where
  "run_ops st [] = Some st"
| "run_ops st (op # ops) =
     (case apply_op st op of None \<Rightarrow> None | Some st' \<Rightarrow> run_ops st' ops)"

section \<open>The token cursor: offsets and the cursor's bound\<close>

text \<open>
  The offset of the first byte of the next token: the cursor's offset, after the
  whitespace that \<^verbatim>\<open>readToken\<close> skips when \<^verbatim>\<open>ignoreSpaces\<close> is set.
\<close>

definition first_byte :: "lexer \<Rightarrow> nat" where
  "first_byte l =
     (if ignoreSpaces l
      then bl_i (lex l) + length (takeWhile IsWhitespace (drop (bl_i (lex l)) (bl_s (lex l))))
      else bl_i (lex l))"

text \<open>
  A position is within the cache, or the input is exhausted (the end-of-input token is
  returned without being cached).
\<close>

definition cursor_ok :: "lexer \<Rightarrow> nat \<Rightarrow> bool" where
  "cursor_ok l p = (p \<le> length (tokens l) \<or> \<not> lex_Valid (lex l))"

text \<open>The bound holds of the cursor and of every position that \<open>Pos\<close> has returned.\<close>

definition cursor_inv :: "lexer \<times> nat list \<Rightarrow> bool" where
  "cursor_inv st = (cursor_ok (fst st) (pos (fst st)) \<and> list_all (cursor_ok (fst st)) (snd st))"

text \<open>
  What \<^verbatim>\<open>readToken\<close> does to the lexer: the position stays, and the cache stays on an
  error, grows by the token returned, or stays when the end-of-input token is returned
  at the end of the input.
\<close>

definition read_effect :: "lexer \<Rightarrow> (lex_error + token) \<Rightarrow> lexer \<Rightarrow> bool" where
  "read_effect l r l' =
     (pos l' = pos l \<and>
      (tokens l' = tokens l \<and> (\<exists>e. r = Inl e) \<or>
       (\<exists>tok. r = Inr tok \<and> tokens l' = tokens l @ [tok]) \<or>
       tokens l' = tokens l \<and> r = Inr eofToken \<and> \<not> lex_Valid (lex l')))"

section \<open>Example collaborators and the fold in the words of the specification\<close>

text \<open>
  Modelled from the spec: collaborators for the worked examples. Column resolution is the
  identity on the attribute name, a condition compiles to its left-hand side, operator
  and right-hand side separated by single spaces, no column is an aggregate, the value
  parser wraps the text it is given as a name in a selector, and the store accepts every
  statement.
\<close>

definition exampleEnv :: collaborators where
  "exampleEnv =
     \<lparr>ParseValue = (\<lambda>v. [Selector (Name [] v)]),
      ParseWhere = (\<lambda>w. []),
      CHColumn = (\<lambda>n minutes. AttrKey n),
      CHAttrExpr = (\<lambda>attr. attr),
      QuoteString = (\<lambda>x. [CHR 0x27] @ x @ [CHR 0x27]),
      CompileCond = (\<lambda>c minutes. Some (AttrKey (Left c) @ '' '' @ CondOp c @ '' '' @ Right c)),
      IsAggColumn = (\<lambda>n. False),
      Cluster = [],
      DropView = (\<lambda>v c. None),
      ExecCreateView = (\<lambda>q. None)\<rparr>"

text \<open>A condition on a plain attribute, with its separator's operator text and negation.\<close>

definition exampleCond :: "string \<Rightarrow> string \<Rightarrow> string \<Rightarrow> string \<Rightarrow> bool \<Rightarrow> cond" where
  "exampleCond l opr r sop neg =
     \<lparr>Sep = \<lparr>Op = sop, Negate = neg\<rparr>, Left = \<lparr>FuncName = [], AttrKey = l\<rparr>, CondOp = opr, Right = r\<rparr>"

text \<open>
  A filter parser for the worked examples: it accepts the one query \<open>q0\<close>, as the single
  condition \<open>x = 1\<close>, and returns no part for any other query.
\<close>

definition oneQueryParser :: "string \<Rightarrow> string \<Rightarrow> tracing_ast list" where
  "oneQueryParser q0 q =
     (if q = q0 then [Where [exampleCond ''x'' ''='' ''1'' ''AND'' False]] else [])"

text \<open>A counter metric with no attributes, annotations or filter.\<close>

definition exampleMetric :: span_metric where
  "exampleMetric =
     \<lparr>MetricName = ''http.requests'', Description = [], Unit = [],
      Instrument = CounterInstrument, Value = ''count'', Attrs = [], Annotations = [],
      MetricWhere = []\<rparr>"

text \<open>
  The surviving conditions of a list: those whose compiled fragment is not \<^verbatim>\<open>nil\<close>, each
  with its separator and its fragment.
\<close>

definition survivors :: "collaborators \<Rightarrow> cond list \<Rightarrow> (cond_sep \<times> string) list" where
  "survivors env cs =
     List.map_filter (\<lambda>c. map_option (\<lambda>bb. (Sep c, bb)) (CompileCond env c spanMetricMinutes)) cs"

text \<open>
  The fold in the words of the specification: a later surviving condition extends the
  accumulated fragment by its operator text, a space, \<^verbatim>\<open>NOT\<close> and a space when its
  separator marks negation, and its own fragment.
\<close>

fun attach :: "string \<Rightarrow> (cond_sep \<times> string) list \<Rightarrow> string" where
  "attach acc [] = acc"
| "attach acc ((sep, bb) # xs) =
     attach (acc @ Op sep @ '' '' @ (if Negate sep then ''NOT '' else []) @ bb) xs"

text \<open>The fold when the separator of the first surviving condition is ignored.\<close>

fun claimed_where_fold :: "(cond_sep \<times> string) list \<Rightarrow> string" where
  "claimed_where_fold [] = []"
| "claimed_where_fold ((sep, bb) # xs) = attach bb xs"

text \<open>
  The fold when only the operator text of the first surviving condition is ignored, and
  its negation is kept.
\<close>

fun where_fold :: "(cond_sep \<times> string) list \<Rightarrow> string" where
  "where_fold [] = []"
| "where_fold ((sep, bb) # xs) = attach ((if Negate sep then ''NOT '' else []) @ bb) xs"

section \<open>The expression and condition compilers: properties\<close>


text \<open>
  Claim C7. A number node is emitted verbatim: the compiler appends the node's text to
  the buffer unchanged, so \<open>Number ''3.14''\<close> compiles to exactly \<open>''3.14''\<close>; a metric
  value that parses to a selector of a number compiles to the number's text, and a
  number inside a binary or parenthesized expression appears there unchanged.
\<close>

theorem number_verbatim:
  "appendSpanMetricExpr env b (Number t) = Inr (b @ t) \<and>
   appendSpanMetricExpr env [] (Number ''3.14'') = Inr ''3.14'' \<and>
   (ParseValue env v = [Selector (Number t)] \<longrightarrow> compileSpanMetricValue env v = Inr t) \<and>
   appendSpanMetricExpr env b (ParenExpr (BinaryExpr (Number t) op (Number t')))
     = Inr (b @ ''('' @ t @ '' '' @ op @ '' '' @ t' @ '')'')"
  by (simp add: compileSpanMetricValue_def)

text \<open>
  The statement of C7 for a value parser that reads every value as a number.
\<close>

theorem number_verbatim_witness:
  "compileSpanMetricValue (exampleEnv\<lparr>ParseValue := (\<lambda>v. [Selector (Number v)])\<rparr>) ''003.140''
     = Inr ''003.140'' \<and>
   appendSpanMetricExpr exampleEnv [] (ParenExpr (BinaryExpr (Number ''1e3'') ''/'' (Number ''0x10'')))
     = Inr ''(1e3 / 0x10)''"
  using number_verbatim [of "exampleEnv\<lparr>ParseValue := (\<lambda>v. [Selector (Number v)])\<rparr>" "[]"
          "''003.140''" "''003.140''" "''/''" "''0x10''"]
    number_verbatim [of exampleEnv "[]" "''1e3''" "[]" "''/''" "''0x10''"]
  by simp




lemma compileConds_agg_iff:
  "(compileConds env w b cs = Inl (AggregateInFilter w)) =
   (\<exists>c\<in>set cs. CompileCond env c spanMetricMinutes \<noteq> None \<and> IsAggColumn env (Left c))"
  by (induction cs arbitrary: b) (auto simp: Let_def split: option.splits)

lemma compileConds_attach:
  assumes "b \<noteq> []"
    and "\<forall>c\<in>set cs. CompileCond env c spanMetricMinutes \<noteq> None \<longrightarrow> \<not> IsAggColumn env (Left c)"
  shows "compileConds env w b cs = Inr (attach b (survivors env cs))"
  using assms
proof (induction cs arbitrary: b)
  case Nil
  then show ?case by (simp add: survivors_def)
next
  case (Cons c cs)
  show ?case
  proof (cases "CompileCond env c spanMetricMinutes")
    case None
    then show ?thesis using Cons by (simp add: survivors_def)
  next
    case (Some bb)
    have "compileConds env w (b @ Op (Sep c) @ '' '' @ (if Negate (Sep c) then ''NOT '' else []) @ bb) cs
          = Inr (attach (b @ Op (Sep c) @ '' '' @ (if Negate (Sep c) then ''NOT '' else []) @ bb) (survivors env cs))"
      using Cons.prems by (intro Cons.IH) auto
    then show ?thesis
      using Some Cons.prems by (cases "Negate (Sep c)") (simp_all add: survivors_def Let_def)
  qed
qed

lemma compileConds_where_fold:
  assumes "\<forall>c\<in>set cs. CompileCond env c spanMetricMinutes \<noteq> None \<longrightarrow> \<not> IsAggColumn env (Left c)"
    and "\<forall>c\<in>set cs. CompileCond env c spanMetricMinutes \<noteq> Some []"
  shows "compileConds env w [] cs = Inr (where_fold (survivors env cs))"
  using assms
proof (induction cs)
  case Nil
  then show ?case by (simp add: survivors_def)
next
  case (Cons c cs)
  show ?case
  proof (cases "CompileCond env c spanMetricMinutes")
    case None
    then show ?thesis using Cons by (simp add: survivors_def)
  next
    case (Some bb)
    then have ne: "bb \<noteq> []" using Cons.prems(2) by auto
    have "compileConds env w ((if Negate (Sep c) then ''NOT '' else []) @ bb) cs
          = Inr (attach ((if Negate (Sep c) then ''NOT '' else []) @ bb) (survivors env cs))"
      using Cons.prems(1) ne by (intro compileConds_attach) auto
    then show ?thesis
      using Some Cons.prems by (cases "Negate (Sep c)") (simp_all add: survivors_def Let_def)
  qed
qed

text \<open>
  Claim C1, as the code has it. For the two conditions \<open>x = 1\<close> and \<open>y = 2\<close>, the second
  negated, the result is the first fragment, the operator text of the second separator
  as it is, a space, \<^verbatim>\<open>NOT\<close>, a space and the second fragment: the loop writes no space
  before the operator text, and the operator text of the first separator does not
  appear. In general, when no surviving condition is an aggregate column and no
  surviving fragment is empty, the result is \<open>where_fold\<close> of the surviving conditions:
  of the first surviving condition's separator only the operator text is ignored, its
  negation is emitted, and every later surviving condition extends the accumulated
  fragment by its operator text, a space, \<^verbatim>\<open>NOT\<close> when negated, and its fragment.
\<close>

theorem where_fold_example:
  "compileConds exampleEnv w []
     [exampleCond ''x'' ''='' ''1'' opAnd False, exampleCond ''y'' ''='' ''2'' opOr True]
     = Inr (''x = 1'' @ opOr @ '' NOT y = 2'') \<and>
   ((\<forall>c\<in>set cs. CompileCond env c spanMetricMinutes \<noteq> None \<longrightarrow> \<not> IsAggColumn env (Left c)) \<longrightarrow>
    (\<forall>c\<in>set cs. CompileCond env c spanMetricMinutes \<noteq> Some []) \<longrightarrow>
      compileConds env w' [] cs = Inr (where_fold (survivors env cs)))"
proof
  show "compileConds exampleEnv w []
     [exampleCond ''x'' ''='' ''1'' opAnd False, exampleCond ''y'' ''='' ''2'' opOr True]
     = Inr (''x = 1'' @ opOr @ '' NOT y = 2'')"
    by (simp add: exampleEnv_def exampleCond_def)
next
  show "(\<forall>c\<in>set cs. CompileCond env c spanMetricMinutes \<noteq> None \<longrightarrow> \<not> IsAggColumn env (Left c)) \<longrightarrow>
    (\<forall>c\<in>set cs. CompileCond env c spanMetricMinutes \<noteq> Some []) \<longrightarrow>
      compileConds env w' [] cs = Inr (where_fold (survivors env cs))"
    using compileConds_where_fold by blast
qed

text \<open>
  The statement of C1 at concrete conditions: with the operator texts \<open>'' AND''\<close> and
  \<open>'' OR''\<close> the example gives \<open>''x = 1 OR NOT y = 2''\<close>; with a negated first condition
  the negation is emitted.
\<close>

theorem where_fold_example_witness:
  "compileConds exampleEnv ''where x = 1 or not y = 2'' []
     [exampleCond ''x'' ''='' ''1'' '' AND'' False, exampleCond ''y'' ''='' ''2'' '' OR'' True]
     = Inr ''x = 1 OR NOT y = 2'' \<and>
   compileConds exampleEnv ''where not x = 1 and y = 2'' []
     [exampleCond ''x'' ''='' ''1'' ''AND'' True, exampleCond ''y'' ''='' ''2'' ''AND'' False]
     = Inr ''NOT x = 1AND y = 2'' \<and>
   where_fold (survivors exampleEnv
     [exampleCond ''x'' ''='' ''1'' ''AND'' True, exampleCond ''y'' ''='' ''2'' ''AND'' False])
     = ''NOT x = 1AND y = 2''"
  using where_fold_example [where w = "''where x = 1 or not y = 2''" and opAnd = "'' AND''"
      and opOr = "'' OR''" and env = exampleEnv and w' = "''where not x = 1 and y = 2''"
      and cs = "[exampleCond ''x'' ''='' ''1'' ''AND'' True, exampleCond ''y'' ''='' ''2'' ''AND'' False]"]
  by (simp add: exampleEnv_def exampleCond_def survivors_def spanMetricMinutes_def)

text \<open>
  Claim C1 as stated fails. The separator of the first surviving condition is not
  ignored: for the single negated condition \<open>x = 1\<close> the code returns \<open>''NOT x = 1''\<close>,
  and ignoring the separator gives \<open>''x = 1''\<close>. And for the two conditions of the
  example, with the operator texts \<open>''AND''\<close> and \<open>''OR''\<close>, the code returns
  \<open>''x = 1OR NOT y = 2''\<close>: nothing is written between the accumulated fragment and
  the operator text.
\<close>

theorem first_separator_counterexample:
  "compileConds exampleEnv ''where not x = 1'' [] [exampleCond ''x'' ''='' ''1'' ''AND'' True]
     = Inr ''NOT x = 1'' \<and>
   claimed_where_fold (survivors exampleEnv [exampleCond ''x'' ''='' ''1'' ''AND'' True]) = ''x = 1'' \<and>
   compileConds exampleEnv ''where not x = 1'' [] [exampleCond ''x'' ''='' ''1'' ''AND'' True]
     \<noteq> Inr (claimed_where_fold (survivors exampleEnv [exampleCond ''x'' ''='' ''1'' ''AND'' True])) \<and>
   compileConds exampleEnv ''where x = 1 or not y = 2'' []
     [exampleCond ''x'' ''='' ''1'' ''AND'' False, exampleCond ''y'' ''='' ''2'' ''OR'' True]
     = Inr ''x = 1OR NOT y = 2'' \<and>
   compileConds exampleEnv ''where x = 1 or not y = 2'' []
     [exampleCond ''x'' ''='' ''1'' ''AND'' False, exampleCond ''y'' ''='' ''2'' ''OR'' True]
     \<noteq> Inr ''x = 1 OR NOT y = 2''"
  by (simp add: exampleEnv_def exampleCond_def survivors_def spanMetricMinutes_def)

text \<open>
  Claim C2, as the code has it. When some condition whose compiled fragment is not
  \<^verbatim>\<open>nil\<close> has a left-hand side that the classifier calls an aggregate column, the loop
  fails with \<open>AggregateInFilter\<close>, wherever the condition stands in the list and whatever
  the buffer holds; so does \<^verbatim>\<open>compileSpanMetricWhere\<close> when the parser returns these
  conditions.
\<close>

theorem aggregate_rejected:
  "((\<exists>c\<in>set cs. CompileCond env c spanMetricMinutes \<noteq> None \<and> IsAggColumn env (Left c)) \<longrightarrow>
      compileConds env w b cs = Inl (AggregateInFilter w)) \<and>
   (ParseWhere env (whereQuery w0) = [Where cs] \<longrightarrow>
    (\<exists>c\<in>set cs. CompileCond env c spanMetricMinutes \<noteq> None \<and> IsAggColumn env (Left c)) \<longrightarrow>
      compileSpanMetricWhere env w0 = Inl (AggregateInFilter (whereQuery w0)))"
  using compileConds_agg_iff [of env w b cs] compileConds_agg_iff [of env "whereQuery w0" "[]" cs]
  by (simp add: compileSpanMetricWhere_def Let_def)

text \<open>
  The statement of C2 at a list whose second condition filters by an aggregate column.
\<close>

theorem aggregate_rejected_witness:
  "compileConds (exampleEnv\<lparr>IsAggColumn := (\<lambda>n. AttrKey n = ''count'')\<rparr>) ''where x = 1 and count > 5'' []
     [exampleCond ''x'' ''='' ''1'' ''AND'' False, exampleCond ''count'' ''>'' ''5'' ''AND'' False]
     = Inl (AggregateInFilter ''where x = 1 and count > 5'') \<and>
   compileSpanMetricWhere
     (exampleEnv\<lparr>IsAggColumn := (\<lambda>n. AttrKey n = ''count''),
                 ParseWhere := (\<lambda>w. [Where [exampleCond ''x'' ''='' ''1'' ''AND'' False,
                                             exampleCond ''count'' ''>'' ''5'' ''AND'' False]])\<rparr>)
     ''x = 1 and count > 5''
     = Inl (AggregateInFilter ''where x = 1 and count > 5'')"
  using aggregate_rejected [of
      "[exampleCond ''x'' ''='' ''1'' ''AND'' False, exampleCond ''count'' ''>'' ''5'' ''AND'' False]"
      "exampleEnv\<lparr>IsAggColumn := (\<lambda>n. AttrKey n = ''count''),
                 ParseWhere := (\<lambda>w. [Where [exampleCond ''x'' ''='' ''1'' ''AND'' False,
                                             exampleCond ''count'' ''>'' ''5'' ''AND'' False]])\<rparr>"
      "''where x = 1 and count > 5''" "[]" "''x = 1 and count > 5''"]
  by (simp add: exampleEnv_def exampleCond_def whereQuery_def HasPrefix_def)

text \<open>
  Claim C2 as stated fails: a condition whose compiled fragment is \<^verbatim>\<open>nil\<close> is skipped
  before the classifier is asked, so an aggregate column on its left-hand side is not
  rejected.
\<close>

theorem aggregate_skipped_counterexample:
  "IsAggColumn (exampleEnv\<lparr>CompileCond := (\<lambda>c minutes. None), IsAggColumn := (\<lambda>n. True)\<rparr>)
     (Left (exampleCond ''count'' ''exists'' [] ''AND'' False)) \<and>
   compileConds (exampleEnv\<lparr>CompileCond := (\<lambda>c minutes. None), IsAggColumn := (\<lambda>n. True)\<rparr>)
     ''where count exists'' [] [exampleCond ''count'' ''exists'' [] ''AND'' False] = Inr [] \<and>
   compileConds (exampleEnv\<lparr>CompileCond := (\<lambda>c minutes. None), IsAggColumn := (\<lambda>n. True)\<rparr>)
     ''where count exists'' [] [exampleCond ''count'' ''exists'' [] ''AND'' False]
     \<noteq> Inl (AggregateInFilter ''where count exists'')"
  by (simp add: exampleEnv_def exampleCond_def)

lemma take_where_length: "take 6 w = ''where '' \<Longrightarrow> 6 \<le> length w"
proof -
  assume a: "take 6 w = ''where ''"
  have "length (take 6 w) = 6" unfolding a by simp
  then show ?thesis by simp
qed

lemma HasPrefix_where: "HasPrefix w ''where '' \<longleftrightarrow> take 6 w = ''where ''"
proof -
  have l6: "length ''where '' = 6" by simp
  show ?thesis unfolding HasPrefix_def l6 using take_where_length by blast
qed

text \<open>
  Claim C9. The query handed to the parser is the filter string itself when its first
  six bytes are the lowercase \<open>''where ''\<close>, and the filter string after \<open>''where ''\<close>
  otherwise; the test is exact, so \<open>''WHERE x = 1''\<close> is prefixed again. The parser is
  asked about this query only, and what it returns there decides the result: one
  \<open>Where\<close> part gives the fold of its conditions, anything else the parse error, which
  prints this query.
\<close>

theorem where_prefix_exact:
  "(take 6 w = ''where '' \<longrightarrow> whereQuery w = w) \<and>
   (take 6 w \<noteq> ''where '' \<longrightarrow> whereQuery w = ''where '' @ w) \<and>
   whereQuery ''WHERE x = 1'' = ''where WHERE x = 1'' \<and>
   compileSpanMetricWhere env w =
     compileSpanMetricWhere (env\<lparr>ParseWhere := (\<lambda>q. if q = whereQuery w then ParseWhere env q else [])\<rparr>) w \<and>
   (ParseWhere env (whereQuery w) = [Where cs] \<longrightarrow>
      compileSpanMetricWhere env w = compileConds env (whereQuery w) [] cs) \<and>
   (length (ParseWhere env (whereQuery w)) \<noteq> 1 \<longrightarrow>
      compileSpanMetricWhere env w = Inl (MalformedMetricWhere (whereQuery w))) \<and>
   (ParseWhere env (whereQuery w) = [OtherTracingAST ty] \<longrightarrow>
      compileSpanMetricWhere env w = Inl (MalformedMetricWhere (whereQuery w))) \<and>
   (take 6 w = ''where '' \<longrightarrow> ParseWhere env w = [Where cs] \<longrightarrow>
      compileSpanMetricWhere env w = compileConds env w [] cs) \<and>
   (take 6 w \<noteq> ''where '' \<longrightarrow> ParseWhere env (''where '' @ w) = [Where cs] \<longrightarrow>
      compileSpanMetricWhere env w = compileConds env (''where '' @ w) [] cs)"
proof -
  have same: "take 6 w = ''where '' \<Longrightarrow> whereQuery w = w"
    by (simp add: whereQuery_def HasPrefix_where)
  have prefixed: "take 6 w \<noteq> ''where '' \<Longrightarrow> whereQuery w = ''where '' @ w"
    by (simp add: whereQuery_def HasPrefix_where)
  have upper: "whereQuery ''WHERE x = 1'' = ''where WHERE x = 1''"
    by (simp add: whereQuery_def HasPrefix_def)
  have agg: "compileConds (env\<lparr>ParseWhere := (\<lambda>q. if q = whereQuery w then ParseWhere env q else [])\<rparr>) (whereQuery w) b ds
        = compileConds env (whereQuery w) b ds" for b ds
    by (induction ds arbitrary: b) (simp_all add: Let_def split: option.splits)
  have only: "compileSpanMetricWhere env w =
     compileSpanMetricWhere (env\<lparr>ParseWhere := (\<lambda>q. if q = whereQuery w then ParseWhere env q else [])\<rparr>) w"
    by (simp add: compileSpanMetricWhere_def Let_def agg split: tracing_ast.splits)
  have conds: "ParseWhere env (whereQuery w) = [Where cs] \<Longrightarrow>
      compileSpanMetricWhere env w = compileConds env (whereQuery w) [] cs"
    by (simp add: compileSpanMetricWhere_def Let_def)
  have count: "length (ParseWhere env (whereQuery w)) \<noteq> 1 \<Longrightarrow>
      compileSpanMetricWhere env w = Inl (MalformedMetricWhere (whereQuery w))"
    by (simp add: compileSpanMetricWhere_def Let_def)
  have other: "ParseWhere env (whereQuery w) = [OtherTracingAST ty] \<Longrightarrow>
      compileSpanMetricWhere env w = Inl (MalformedMetricWhere (whereQuery w))"
    by (simp add: compileSpanMetricWhere_def Let_def)
  have conds_same: "take 6 w = ''where '' \<Longrightarrow> ParseWhere env w = [Where cs] \<Longrightarrow>
      compileSpanMetricWhere env w = compileConds env w [] cs"
    using conds same by simp
  have conds_prefixed: "take 6 w \<noteq> ''where '' \<Longrightarrow> ParseWhere env (''where '' @ w) = [Where cs] \<Longrightarrow>
      compileSpanMetricWhere env w = compileConds env (''where '' @ w) [] cs"
    using conds prefixed by simp
  show ?thesis
    using same prefixed upper only conds count other conds_same conds_prefixed
    by (intro conjI impI)
qed

text \<open>
  The statement of C9 at four filter strings, and with two parsers that accept one query
  each: with the parser of \<open>''where x = 1''\<close> the filters \<open>''x = 1''\<close> and
  \<open>''where x = 1''\<close> compile to the same fragment and \<open>''WHERE x = 1''\<close> is the parse
  error of \<open>''where WHERE x = 1''\<close>; with the parser of \<open>''where WHERE x = 1''\<close> the
  filter \<open>''WHERE x = 1''\<close> compiles.
\<close>

theorem where_prefix_exact_witness:
  "whereQuery ''where x = 1'' = ''where x = 1'' \<and>
   whereQuery ''Where x = 1'' = ''where Where x = 1'' \<and>
   whereQuery ''x = 1'' = ''where x = 1'' \<and>
   whereQuery ''where'' = ''where where'' \<and>
   compileSpanMetricWhere (exampleEnv\<lparr>ParseWhere := oneQueryParser ''where x = 1''\<rparr>) ''x = 1''
     = Inr ''x = 1'' \<and>
   compileSpanMetricWhere (exampleEnv\<lparr>ParseWhere := oneQueryParser ''where x = 1''\<rparr>) ''where x = 1''
     = Inr ''x = 1'' \<and>
   compileSpanMetricWhere (exampleEnv\<lparr>ParseWhere := oneQueryParser ''where x = 1''\<rparr>) ''WHERE x = 1''
     = Inl (MalformedMetricWhere ''where WHERE x = 1'') \<and>
   compileSpanMetricWhere (exampleEnv\<lparr>ParseWhere := oneQueryParser ''where WHERE x = 1''\<rparr>) ''WHERE x = 1''
     = Inr ''x = 1''"
proof -
  let ?cs = "[exampleCond ''x'' ''='' ''1'' ''AND'' False]"
  let ?e1 = "exampleEnv\<lparr>ParseWhere := oneQueryParser ''where x = 1''\<rparr>"
  let ?e2 = "exampleEnv\<lparr>ParseWhere := oneQueryParser ''where WHERE x = 1''\<rparr>"
  have fold: "compileConds (exampleEnv\<lparr>ParseWhere := p\<rparr>) q [] ?cs = Inr ''x = 1''" for p q
    by (simp add: exampleEnv_def exampleCond_def)
  have a: "compileSpanMetricWhere ?e1 ''x = 1'' = Inr ''x = 1''"
  proof -
    have "take 6 ''x = 1'' \<noteq> ''where '' \<longrightarrow> ParseWhere ?e1 (''where '' @ ''x = 1'') = [Where ?cs] \<longrightarrow>
        compileSpanMetricWhere ?e1 ''x = 1'' = compileConds ?e1 (''where '' @ ''x = 1'') [] ?cs"
      using where_prefix_exact [of "''x = 1''" ?e1 ?cs] by blast
    moreover have "take 6 ''x = 1'' \<noteq> ''where ''" by simp
    moreover have "ParseWhere ?e1 (''where '' @ ''x = 1'') = [Where ?cs]"
      by (simp add: oneQueryParser_def)
    ultimately have "compileSpanMetricWhere ?e1 ''x = 1'' = compileConds ?e1 (''where '' @ ''x = 1'') [] ?cs"
      by blast
    then show ?thesis unfolding fold .
  qed
  have b: "compileSpanMetricWhere ?e1 ''where x = 1'' = Inr ''x = 1''"
  proof -
    have "take 6 ''where x = 1'' = ''where '' \<longrightarrow> ParseWhere ?e1 ''where x = 1'' = [Where ?cs] \<longrightarrow>
        compileSpanMetricWhere ?e1 ''where x = 1'' = compileConds ?e1 ''where x = 1'' [] ?cs"
      using where_prefix_exact [of "''where x = 1''" ?e1 ?cs] by blast
    moreover have "take 6 ''where x = 1'' = ''where ''" by simp
    moreover have "ParseWhere ?e1 ''where x = 1'' = [Where ?cs]"
      by (simp add: oneQueryParser_def)
    ultimately have "compileSpanMetricWhere ?e1 ''where x = 1'' = compileConds ?e1 ''where x = 1'' [] ?cs"
      by blast
    then show ?thesis unfolding fold .
  qed
  have c: "compileSpanMetricWhere ?e1 ''WHERE x = 1'' = Inl (MalformedMetricWhere ''where WHERE x = 1'')"
  proof -
    have w: "whereQuery ''WHERE x = 1'' = ''where WHERE x = 1''"
      using where_prefix_exact [of "''WHERE x = 1''" ?e1 ?cs] by blast
    have "length (ParseWhere ?e1 (whereQuery ''WHERE x = 1'')) \<noteq> 1 \<longrightarrow>
        compileSpanMetricWhere ?e1 ''WHERE x = 1'' = Inl (MalformedMetricWhere (whereQuery ''WHERE x = 1''))"
      using where_prefix_exact [of "''WHERE x = 1''" ?e1 ?cs] by blast
    moreover have "length (ParseWhere ?e1 (whereQuery ''WHERE x = 1'')) \<noteq> 1"
      unfolding w by (simp add: oneQueryParser_def)
    ultimately show ?thesis unfolding w by blast
  qed
  have d: "compileSpanMetricWhere ?e2 ''WHERE x = 1'' = Inr ''x = 1''"
  proof -
    have "take 6 ''WHERE x = 1'' \<noteq> ''where '' \<longrightarrow> ParseWhere ?e2 (''where '' @ ''WHERE x = 1'') = [Where ?cs] \<longrightarrow>
        compileSpanMetricWhere ?e2 ''WHERE x = 1'' = compileConds ?e2 (''where '' @ ''WHERE x = 1'') [] ?cs"
      using where_prefix_exact [of "''WHERE x = 1''" ?e2 ?cs] by blast
    moreover have "take 6 ''WHERE x = 1'' \<noteq> ''where ''" by simp
    moreover have "ParseWhere ?e2 (''where '' @ ''WHERE x = 1'') = [Where ?cs]"
      by (simp add: oneQueryParser_def)
    ultimately have "compileSpanMetricWhere ?e2 ''WHERE x = 1'' = compileConds ?e2 (''where '' @ ''WHERE x = 1'') [] ?cs"
      by blast
    then show ?thesis unfolding fold .
  qed
  have q: "whereQuery ''where x = 1'' = ''where x = 1'' \<and>
     whereQuery ''Where x = 1'' = ''where Where x = 1'' \<and>
     whereQuery ''x = 1'' = ''where x = 1'' \<and>
     whereQuery ''where'' = ''where where''"
    using where_prefix_exact [of "''where x = 1''" exampleEnv] where_prefix_exact [of "''Where x = 1''" exampleEnv]
      where_prefix_exact [of "''x = 1''" exampleEnv] where_prefix_exact [of "''where''" exampleEnv]
    by simp
  show ?thesis using q a b c d by blast
qed

text \<open>
  Claim C6. When the parser returns no part or more than one, the value fails with
  \<open>MalformedMetricValue\<close> (the value cannot be parsed); when it returns one part that is
  not a selector, the value fails with \<open>MalformedMetricValue\<close> (the node is unsupported);
  so whenever the parser does not return exactly one selector the result is this error,
  whatever the column resolution is, and the inner expression is compiled only when
  the parser returns exactly one selector.
\<close>

theorem metric_value_shape:
  "(length (ParseValue env v) \<noteq> 1 \<longrightarrow>
      compileSpanMetricValue env v = Inl (MalformedMetricValue (CantParse v))) \<and>
   (ParseValue env v = [OtherAST ty] \<longrightarrow>
      compileSpanMetricValue env v = Inl (MalformedMetricValue (UnsupportedAST ty))) \<and>
   (ParseValue env v = [Selector e] \<longrightarrow>
      compileSpanMetricValue env v = appendSpanMetricExpr env [] e) \<and>
   ((\<forall>e'. ParseValue env v \<noteq> [Selector e']) \<longrightarrow>
      (\<exists>fault. \<forall>resolve. compileSpanMetricValue (env\<lparr>CHColumn := resolve\<rparr>) v
                  = Inl (MalformedMetricValue fault)))"
proof (intro conjI impI)
  assume a: "\<forall>e'. ParseValue env v \<noteq> [Selector e']"
  show "\<exists>fault. \<forall>resolve. compileSpanMetricValue (env\<lparr>CHColumn := resolve\<rparr>) v
                  = Inl (MalformedMetricValue fault)"
  proof (cases "length (ParseValue env v) \<noteq> 1")
    case True
    then show ?thesis by (auto simp: compileSpanMetricValue_def Let_def)
  next
    case False
    then obtain x where x: "ParseValue env v = [x]"
      by (cases "ParseValue env v") auto
    then obtain ty where "x = OtherAST ty" using a by (cases x) auto
    then show ?thesis using x by (auto simp: compileSpanMetricValue_def Let_def)
  qed
qed (simp_all add: compileSpanMetricValue_def Let_def)

text \<open>
  The statement of C6 at three parsers: no part, a part that is not a selector, and a
  selector.
\<close>

theorem metric_value_shape_witness:
  "compileSpanMetricValue (exampleEnv\<lparr>ParseValue := (\<lambda>v. [])\<rparr>) ''?''
     = Inl (MalformedMetricValue (CantParse ''?'')) \<and>
   compileSpanMetricValue (exampleEnv\<lparr>ParseValue := (\<lambda>v. [OtherAST ''*ast.Grouping''])\<rparr>) ''group by a''
     = Inl (MalformedMetricValue (UnsupportedAST ''*ast.Grouping'')) \<and>
   compileSpanMetricValue exampleEnv ''duration'' = Inr ''duration''"
  using metric_value_shape [of "exampleEnv\<lparr>ParseValue := (\<lambda>v. [])\<rparr>" "''?''"]
    metric_value_shape [of "exampleEnv\<lparr>ParseValue := (\<lambda>v. [OtherAST ''*ast.Grouping''])\<rparr>" "''group by a''" "''*ast.Grouping''"]
    metric_value_shape [of exampleEnv "''duration''" _ "Name [] ''duration''"]
  by (simp add: exampleEnv_def AppendCHColumn_def)

section \<open>The view definition builder: properties\<close>

lemma View_addColumns: "View (addColumns cols q) = View q"
  by (simp add: addColumns_def)

lemma View_withAttrs: "View (withAttrs env m q) = View q"
  by (simp add: withAttrs_def Let_def View_addColumns)

lemma View_withAnnotations: "View (withAnnotations env m q) = View q"
  by (simp add: withAnnotations_def View_addColumns)

lemma View_withWhere: "withWhere env m q = Inr q' \<Longrightarrow> View q' = View q"
  by (auto simp: withWhere_def split: if_splits sum.splits)

lemma View_withInstrument: "withInstrument i v q = Inr q' \<Longrightarrow> View q' = View q"
  by (cases i) (auto simp: View_addColumns)

lemma execView_Inr: "execView env q = Inr q' \<Longrightarrow> q' = q"
  by (auto simp: execView_def split: option.splits)

text \<open>
  Claim C4, as the code has it. When \<^verbatim>\<open>createMatView\<close> succeeds, the name of the view is
  \<open>''metrics_''\<close>, then the metric name with every \<open>.\<close> replaced by \<open>_\<close>, then \<open>''_mv''\<close>:
  the metric \<open>''http.requests''\<close> gives the view \<open>''metrics_http_requests_mv''\<close>.
\<close>

theorem view_name_derived:
  "(createMatView env m = Inr q \<longrightarrow>
      View q = ''metrics_'' @ map (\<lambda>c. if c = CHR ''.'' then CHR ''_'' else c) (MetricName m) @ ''_mv'') \<and>
   viewName ''http.requests'' = ''metrics_http_requests_mv''"
proof (intro conjI impI)
  assume a: "createMatView env m = Inr q"
  then obtain v q1 q2 where
    w: "withWhere env m (withAnnotations env m (withAttrs env m (baseQuery env m))) = Inr q1"
    and i: "withInstrument (Instrument m) v q1 = Inr q2"
    and e: "execView env q2 = Inr q"
    by (auto simp: createMatView_def split: option.splits sum.splits)
  have "View q = View (baseQuery env m)"
    using execView_Inr [OF e] View_withInstrument [OF i] View_withWhere [OF w]
    by (simp add: View_withAnnotations View_withAttrs)
  then show "View q = ''metrics_'' @ map (\<lambda>c. if c = CHR ''.'' then CHR ''_'' else c) (MetricName m) @ ''_mv''"
    by (simp add: baseQuery_def viewName_def ReplaceAll_def)
next
  show "viewName ''http.requests'' = ''metrics_http_requests_mv''"
    by (simp add: viewName_def ReplaceAll_def)
qed

lemma createMatView_example:
  "createMatView exampleEnv exampleMetric =
     Inr ((baseQuery exampleEnv exampleMetric)
       \<lparr>ColumnExprs := ColumnExprs (baseQuery exampleEnv exampleMetric) @ [(''? AS sum'', [Safe ''count''])]\<rparr>)"
  by (simp add: createMatView_def exampleEnv_def exampleMetric_def compileSpanMetricValue_def
      withWhere_def withAnnotations_def withAttrs_def execView_def addColumns_def AppendCHColumn_def)

text \<open>
  The statement of C4 at the example metric, which compiles.
\<close>

theorem view_name_derived_witness:
  "createMatView exampleEnv exampleMetric =
     Inr ((baseQuery exampleEnv exampleMetric)
       \<lparr>ColumnExprs := ColumnExprs (baseQuery exampleEnv exampleMetric) @ [(''? AS sum'', [Safe ''count''])]\<rparr>) \<and>
   View ((baseQuery exampleEnv exampleMetric)
       \<lparr>ColumnExprs := ColumnExprs (baseQuery exampleEnv exampleMetric) @ [(''? AS sum'', [Safe ''count''])]\<rparr>)
     = ''metrics_http_requests_mv''"
  using view_name_derived [of exampleEnv exampleMetric
     "(baseQuery exampleEnv exampleMetric)
       \<lparr>ColumnExprs := ColumnExprs (baseQuery exampleEnv exampleMetric) @ [(''? AS sum'', [Safe ''count''])]\<rparr>"]
    createMatView_example
  by (simp add: exampleMetric_def)

text \<open>
  Claim C4 as stated fails: the view of the metric \<open>''http.requests''\<close> is not named
  \<open>''http_requests_mv''\<close>; the name carries the prefix \<open>''metrics_''\<close>.
\<close>

theorem view_name_prefix_counterexample:
  "map_sum id View (createMatView exampleEnv exampleMetric) = Inr ''metrics_http_requests_mv'' \<and>
   MetricName exampleMetric = ''http.requests'' \<and>
   map_sum id View (createMatView exampleEnv exampleMetric) \<noteq> Inr ''http_requests_mv''"
  unfolding createMatView_example
  by (simp add: baseQuery_def viewName_def ReplaceAll_def exampleMetric_def)

text \<open>
  Claim C5. When the view has been dropped, the value has compiled to \<open>v\<close> and the query
  \<open>q\<close> has been built up to the filter, the switch on the instrument decides the value
  columns: a histogram adds exactly the three columns \<open>count\<close>, \<open>sum\<close> and \<open>histogram\<close>, a
  counter exactly the column \<open>sum\<close>, a gauge and an additive instrument exactly the
  column \<open>value\<close>, and the query is then executed; any other instrument name is the
  error \<open>UnsupportedInstrument\<close>, and no query is executed.
\<close>

theorem instrument_columns:
  "DropView env (viewName (MetricName m)) (Cluster env) = None \<longrightarrow>
   compileSpanMetricValue env (Value m) = Inr v \<longrightarrow>
   withWhere env m (withAnnotations env m (withAttrs env m (baseQuery env m))) = Inr q \<longrightarrow>
     (Instrument m = HistogramInstrument \<longrightarrow>
        createMatView env m = execView env (q\<lparr>ColumnExprs := ColumnExprs q @
          [(''count() AS count'', []),
           (''sum(?) AS sum'', [Safe v]),
           (''quantilesBFloat16State(0.5)(toFloat32(?)) AS histogram'', [Safe v])]\<rparr>)) \<and>
     (Instrument m = CounterInstrument \<longrightarrow>
        createMatView env m = execView env (q\<lparr>ColumnExprs := ColumnExprs q @ [(''? AS sum'', [Safe v])]\<rparr>)) \<and>
     (Instrument m = GaugeInstrument \<or> Instrument m = AdditiveInstrument \<longrightarrow>
        createMatView env m = execView env (q\<lparr>ColumnExprs := ColumnExprs q @ [(''? AS value'', [Safe v])]\<rparr>)) \<and>
     (Instrument m = OtherInstrument n \<longrightarrow>
        createMatView env m = Inl (UnsupportedInstrument n))"
  by (auto simp: createMatView_def addColumns_def)


text \<open>
  The statement of C5 at the example metric, for a histogram, a counter, a gauge and an
  unknown instrument.
\<close>

theorem instrument_columns_witness:
  "createMatView exampleEnv (exampleMetric\<lparr>Instrument := HistogramInstrument\<rparr>) =
     Inr ((baseQuery exampleEnv (exampleMetric\<lparr>Instrument := HistogramInstrument\<rparr>))
       \<lparr>ColumnExprs := ColumnExprs (baseQuery exampleEnv (exampleMetric\<lparr>Instrument := HistogramInstrument\<rparr>)) @
          [(''count() AS count'', []),
           (''sum(?) AS sum'', [Safe ''count'']),
           (''quantilesBFloat16State(0.5)(toFloat32(?)) AS histogram'', [Safe ''count''])]\<rparr>) \<and>
   createMatView exampleEnv (exampleMetric\<lparr>Instrument := CounterInstrument\<rparr>) =
     Inr ((baseQuery exampleEnv (exampleMetric\<lparr>Instrument := CounterInstrument\<rparr>))
       \<lparr>ColumnExprs := ColumnExprs (baseQuery exampleEnv (exampleMetric\<lparr>Instrument := CounterInstrument\<rparr>)) @
          [(''? AS sum'', [Safe ''count''])]\<rparr>) \<and>
   createMatView exampleEnv (exampleMetric\<lparr>Instrument := GaugeInstrument\<rparr>) =
     Inr ((baseQuery exampleEnv (exampleMetric\<lparr>Instrument := GaugeInstrument\<rparr>))
       \<lparr>ColumnExprs := ColumnExprs (baseQuery exampleEnv (exampleMetric\<lparr>Instrument := GaugeInstrument\<rparr>)) @
          [(''? AS value'', [Safe ''count''])]\<rparr>) \<and>
   createMatView exampleEnv (exampleMetric\<lparr>Instrument := OtherInstrument ''bogus''\<rparr>) =
     Inl (UnsupportedInstrument ''bogus'')"
proof -
  have pre: "DropView exampleEnv (viewName (MetricName (exampleMetric\<lparr>Instrument := i\<rparr>))) (Cluster exampleEnv) = None \<and>
     compileSpanMetricValue exampleEnv (Value (exampleMetric\<lparr>Instrument := i\<rparr>)) = Inr ''count'' \<and>
     withWhere exampleEnv (exampleMetric\<lparr>Instrument := i\<rparr>)
       (withAnnotations exampleEnv (exampleMetric\<lparr>Instrument := i\<rparr>)
         (withAttrs exampleEnv (exampleMetric\<lparr>Instrument := i\<rparr>) (baseQuery exampleEnv (exampleMetric\<lparr>Instrument := i\<rparr>))))
       = Inr (baseQuery exampleEnv (exampleMetric\<lparr>Instrument := i\<rparr>)) \<and>
     Instrument (exampleMetric\<lparr>Instrument := i\<rparr>) = i" for i
    by (simp add: exampleEnv_def exampleMetric_def compileSpanMetricValue_def
      withWhere_def withAnnotations_def withAttrs_def AppendCHColumn_def)
  have ex: "execView exampleEnv q = Inr q" for q
    by (simp add: execView_def exampleEnv_def)
  have h: "createMatView exampleEnv (exampleMetric\<lparr>Instrument := HistogramInstrument\<rparr>) =
     Inr ((baseQuery exampleEnv (exampleMetric\<lparr>Instrument := HistogramInstrument\<rparr>))
       \<lparr>ColumnExprs := ColumnExprs (baseQuery exampleEnv (exampleMetric\<lparr>Instrument := HistogramInstrument\<rparr>)) @
          [(''count() AS count'', []),
           (''sum(?) AS sum'', [Safe ''count'']),
           (''quantilesBFloat16State(0.5)(toFloat32(?)) AS histogram'', [Safe ''count''])]\<rparr>)"
    using instrument_columns [of exampleEnv "exampleMetric\<lparr>Instrument := HistogramInstrument\<rparr>" "''count''"
            "baseQuery exampleEnv (exampleMetric\<lparr>Instrument := HistogramInstrument\<rparr>)" "[]"]
      pre [of HistogramInstrument]
    by (simp add: ex)
  have c: "createMatView exampleEnv (exampleMetric\<lparr>Instrument := CounterInstrument\<rparr>) =
     Inr ((baseQuery exampleEnv (exampleMetric\<lparr>Instrument := CounterInstrument\<rparr>))
       \<lparr>ColumnExprs := ColumnExprs (baseQuery exampleEnv (exampleMetric\<lparr>Instrument := CounterInstrument\<rparr>)) @
          [(''? AS sum'', [Safe ''count''])]\<rparr>)"
    using instrument_columns [of exampleEnv "exampleMetric\<lparr>Instrument := CounterInstrument\<rparr>" "''count''"
            "baseQuery exampleEnv (exampleMetric\<lparr>Instrument := CounterInstrument\<rparr>)" "[]"]
      pre [of CounterInstrument]
    by (simp add: ex)
  have g: "createMatView exampleEnv (exampleMetric\<lparr>Instrument := GaugeInstrument\<rparr>) =
     Inr ((baseQuery exampleEnv (exampleMetric\<lparr>Instrument := GaugeInstrument\<rparr>))
       \<lparr>ColumnExprs := ColumnExprs (baseQuery exampleEnv (exampleMetric\<lparr>Instrument := GaugeInstrument\<rparr>)) @
          [(''? AS value'', [Safe ''count''])]\<rparr>)"
    using instrument_columns [of exampleEnv "exampleMetric\<lparr>Instrument := GaugeInstrument\<rparr>" "''count''"
            "baseQuery exampleEnv (exampleMetric\<lparr>Instrument := GaugeInstrument\<rparr>)" "[]"]
      pre [of GaugeInstrument]
    by (simp add: ex)
  have b: "createMatView exampleEnv (exampleMetric\<lparr>Instrument := OtherInstrument ''bogus''\<rparr>) =
     Inl (UnsupportedInstrument ''bogus'')"
    using instrument_columns [of exampleEnv "exampleMetric\<lparr>Instrument := OtherInstrument ''bogus''\<rparr>" "''count''"
            "baseQuery exampleEnv (exampleMetric\<lparr>Instrument := OtherInstrument ''bogus''\<rparr>)" "''bogus''"]
      pre [of "OtherInstrument ''bogus''"]
    by simp
  show ?thesis using h c g b by (intro conjI)
qed

section \<open>The token cursor: properties\<close>

lemma first_byte_nonws:
  "lex_Valid (lex l) \<Longrightarrow> \<not> (ignoreSpaces l \<and> IsWhitespace (bl_s (lex l) ! bl_i (lex l)))
     \<Longrightarrow> first_byte l = bl_i (lex l)"
  by (auto simp: first_byte_def lex_Valid_def Cons_nth_drop_Suc [symmetric])

lemma first_byte_ws:
  "lex_Valid (lex l) \<Longrightarrow> ignoreSpaces l \<Longrightarrow> IsWhitespace (bl_s (lex l) ! bl_i (lex l))
     \<Longrightarrow> first_byte l = first_byte (l\<lparr>lex := (lex l)\<lparr>bl_i := bl_i (lex l) + 1\<rparr>\<rparr>)"
  by (auto simp: first_byte_def lex_Valid_def Cons_nth_drop_Suc [symmetric])

lemma ident_start: "ident l st = (tok, l') \<Longrightarrow> ID tok = IDENT_TOKEN \<and> Start tok = st"
  by (auto simp: ident_def token_def Let_def)

lemma charToken_start:
  "charToken l tid = (tok, l') \<Longrightarrow> ID tok = tid \<and> Start tok = lex_Pos (lex l) - 1"
  by (auto simp: charToken_def token_def Let_def)

lemma quotedValue_start:
  "quotedValue l q = (Inr tok, l') \<Longrightarrow> ID tok = VALUE_TOKEN \<and> Start tok = lex_Pos (lex l) - 1"
  by (auto simp: quotedValue_def Let_def split: prod.splits sum.splits)

lemma number_text_prefix:
  "lex_Number lx = (x, lx') \<Longrightarrow>
     bl_i lx' = bl_i lx + length x \<and> bl_s lx' = bl_s lx \<and> x = take (length x) (drop (bl_i lx) (bl_s lx))"
proof -
  assume a: "lex_Number lx = (x, lx')"
  define rest where "rest = drop (bl_i lx) (bl_s lx)"
  define whole where "whole = takeWhile IsDigit rest"
  have r: "rest = whole @ drop (length whole) rest"
    unfolding whole_def by (metis takeWhile_dropWhile_id dropWhile_eq_drop)
  show ?thesis
  proof (cases "drop (length whole) rest")
    case Nil
    then have "x = whole" "lx' = lx\<lparr>bl_i := bl_i lx + length x\<rparr>"
      using a by (auto simp: lex_Number_def Let_def rest_def whole_def)
    moreover have "whole = take (length whole) rest" using r by (metis append_eq_conv_conj)
    ultimately show ?thesis by (simp add: rest_def)
  next
    case (Cons c cs)
    show ?thesis
    proof (cases "c = CHR ''.''")
      case False
      then have "x = whole" "lx' = lx\<lparr>bl_i := bl_i lx + length x\<rparr>"
        using a Cons by (auto simp: lex_Number_def Let_def rest_def whole_def)
      moreover have "whole = take (length whole) rest" using r by (metis append_eq_conv_conj)
      ultimately show ?thesis by (simp add: rest_def)
    next
      case True
      then have x: "x = whole @ c # takeWhile IsDigit cs" and lx: "lx' = lx\<lparr>bl_i := bl_i lx + length x\<rparr>"
        using a Cons by (auto simp: lex_Number_def Let_def rest_def whole_def)
      have "rest = whole @ c # takeWhile IsDigit cs @ dropWhile IsDigit cs"
        using r Cons by simp
      then have "rest = x @ dropWhile IsDigit cs" using x by simp
      then have "x = take (length x) rest" by (metis append_eq_conv_conj)
      then show ?thesis using lx by (simp add: rest_def)
    qed
  qed
qed

lemma number_start:
  "number l = (tok, l') \<Longrightarrow>
     ID tok = NUMBER_TOKEN \<and> Start tok = bl_i (lex l) + length (Text tok) \<and>
     Text tok = slice (bl_s (lex l)) (bl_i (lex l)) (Start tok)"
proof -
  assume a: "number l = (tok, l')"
  obtain x lx where n: "lex_Number (lex l) = (x, lx)" by (cases "lex_Number (lex l)")
  then have t: "tok = \<lparr>ID = NUMBER_TOKEN, Text = x, Start = lex_Pos lx\<rparr>"
    using a by (auto simp: number_def token_def Let_def)
  show ?thesis using number_text_prefix [OF n] t by (simp add: lex_Pos_def slice_def)
qed


lemma readToken_start:
  "readToken l = (Inr tok, l') \<Longrightarrow> ID tok \<noteq> EOF_TOKEN \<Longrightarrow>
     (ID tok = NUMBER_TOKEN \<longrightarrow>
        Start tok = first_byte l + length (Text tok) \<and>
        Text tok = slice (bl_s (lex l)) (first_byte l) (Start tok)) \<and>
     (ID tok \<noteq> NUMBER_TOKEN \<longrightarrow> Start tok = first_byte l)"
proof (induction l rule: readToken.induct)
  case (1 l)
  show ?case
  proof (cases "lex_Valid (lex l)")
    case False
    then have "tok = eofToken" using "1.prems"(1) by (subst (asm) readToken.simps) simp
    then show ?thesis using "1.prems"(2) by (simp add: eofToken_def)
  next
    case valid: True
    define c where "c = fst (lex_NextByte (lex l))"
    define l1 where "l1 = l\<lparr>lex := snd (lex_NextByte (lex l))\<rparr>"
    have c: "c = bl_s (lex l) ! bl_i (lex l)"
      using valid by (simp add: c_def lex_NextByte_def)
    have l1: "l1 = l\<lparr>lex := (lex l)\<lparr>bl_i := bl_i (lex l) + 1\<rparr>\<rparr>"
      using valid by (simp add: l1_def lex_NextByte_def)
    have p1: "lex_Pos (lex l1) - 1 = bl_i (lex l)" by (simp add: l1 lex_Pos_def)
    have rw: "l1\<lparr>lex := lex_Rewind (lex l1)\<rparr> = l"
      by (simp add: l1 lex_Rewind_def)
    have ig: "ignoreSpaces l1 = ignoreSpaces l" by (simp add: l1)
    have unf: "readToken l =
       (if c = CHR 0x27 \<or> c = CHR 0x22 then quotedValue l1 c
        else if c = CHR ''('' \<or> c = CHR '')'' \<or> c = CHR '','' then wrap (charToken l1 BYTE_TOKEN)
        else if c = CHR ''_'' then wrap (ident l1 (lex_Pos (lex l1) - 1))
        else if c = CHR ''$'' then wrap (ident l1 (lex_Pos (lex l1) - 1))
        else if ignoreSpaces l1 \<and> IsWhitespace c then readToken l1
        else if IsDigit c then wrap (number l)
        else if IsAlpha c then wrap (ident l1 (lex_Pos (lex l1) - 1))
        else wrap (charToken l1 BYTE_TOKEN))"
      using valid rw by (subst readToken.simps) (simp add: c_def l1_def Let_def)
    consider
        (quoted) "c = CHR 0x27 \<or> c = CHR 0x22"
      | (punct) "c = CHR ''('' \<or> c = CHR '')'' \<or> c = CHR '',''"
      | (under) "c = CHR ''_'' \<or> c = CHR ''$''"
      | (space) "\<not> (c = CHR 0x27 \<or> c = CHR 0x22)" "\<not> (c = CHR ''('' \<or> c = CHR '')'' \<or> c = CHR '','')"
                "\<not> (c = CHR ''_'' \<or> c = CHR ''$'')" "ignoreSpaces l1 \<and> IsWhitespace c"
      | (digit) "\<not> (c = CHR 0x27 \<or> c = CHR 0x22)" "\<not> (c = CHR ''('' \<or> c = CHR '')'' \<or> c = CHR '','')"
                "\<not> (c = CHR ''_'' \<or> c = CHR ''$'')" "\<not> (ignoreSpaces l1 \<and> IsWhitespace c)" "IsDigit c"
      | (alpha) "\<not> (c = CHR 0x27 \<or> c = CHR 0x22)" "\<not> (c = CHR ''('' \<or> c = CHR '')'' \<or> c = CHR '','')"
                "\<not> (c = CHR ''_'' \<or> c = CHR ''$'')" "\<not> (ignoreSpaces l1 \<and> IsWhitespace c)" "\<not> IsDigit c" "IsAlpha c"
      | (other) "\<not> (c = CHR 0x27 \<or> c = CHR 0x22)" "\<not> (c = CHR ''('' \<or> c = CHR '')'' \<or> c = CHR '','')"
                "\<not> (c = CHR ''_'' \<or> c = CHR ''$'')" "\<not> (ignoreSpaces l1 \<and> IsWhitespace c)" "\<not> IsDigit c" "\<not> IsAlpha c"
      by blast
    then show ?thesis
    proof cases
      case quoted
      then have nws: "\<not> IsWhitespace c" by (auto simp: IsWhitespace_def)
      have fb: "first_byte l = bl_i (lex l)"
        using first_byte_nonws [OF valid] nws c by simp
      have "quotedValue l1 c = (Inr tok, l')" using "1.prems"(1) unf quoted by simp
      from quotedValue_start [OF this] show ?thesis using fb p1 by simp
    next
      case punct
      then have nws: "\<not> IsWhitespace c" by (auto simp: IsWhitespace_def)
      have fb: "first_byte l = bl_i (lex l)"
        using first_byte_nonws [OF valid] nws c by simp
      have "charToken l1 BYTE_TOKEN = (tok, l')"
        using "1.prems"(1) unf punct by (auto simp: wrap_def prod_eq_iff)
      from charToken_start [OF this] show ?thesis using fb p1 by simp
    next
      case under
      then have nws: "\<not> IsWhitespace c" by (auto simp: IsWhitespace_def)
      have fb: "first_byte l = bl_i (lex l)"
        using first_byte_nonws [OF valid] nws c by simp
      have "ident l1 (lex_Pos (lex l1) - 1) = (tok, l')"
        using "1.prems"(1) unf under by (auto simp: wrap_def prod_eq_iff)
      from ident_start [OF this] show ?thesis using fb p1 by simp
    next
      case space
      have fb: "first_byte l = first_byte l1"
        using first_byte_ws [OF valid] space(4) c ig l1 by simp
      have r: "readToken l1 = (Inr tok, l')" using "1.prems"(1) unf space by simp
      have s1: "bl_s (lex l1) = bl_s (lex l)" by (simp add: l1)
      have "(ID tok = NUMBER_TOKEN \<longrightarrow>
        Start tok = first_byte l1 + length (Text tok) \<and>
        Text tok = slice (bl_s (lex l1)) (first_byte l1) (Start tok)) \<and>
        (ID tok \<noteq> NUMBER_TOKEN \<longrightarrow> Start tok = first_byte l1)"
      proof (rule "1.IH" [OF _ c_def l1_def _ _ _ _ space(4) r "1.prems"(2)])
        show "\<not> \<not> lex_Valid (lex l)" using valid by blast
        show "\<not> (c = CHR 0x27 \<or> c = CHR 0x22)" by (rule space(1))
        show "\<not> (c = CHR ''('' \<or> c = CHR '')'' \<or> c = CHR '','')" by (rule space(2))
        show "c \<noteq> CHR ''_''" using space(3) by blast
        show "c \<noteq> CHR ''$''" using space(3) by blast
      qed
      then show ?thesis unfolding fb s1 .
    next
      case digit
      have fb: "first_byte l = bl_i (lex l)"
        using first_byte_nonws [OF valid] digit(4) c ig by simp
      have "number l = (tok, l')"
        using "1.prems"(1) unf digit by (auto simp: wrap_def prod_eq_iff)
      from number_start [OF this] show ?thesis unfolding fb by blast
    next
      case alpha
      have fb: "first_byte l = bl_i (lex l)"
        using first_byte_nonws [OF valid] alpha(4) c ig by simp
      have "ident l1 (lex_Pos (lex l1) - 1) = (tok, l')"
        using "1.prems"(1) unf alpha by (auto simp: wrap_def prod_eq_iff)
      from ident_start [OF this] show ?thesis using fb p1 by simp
    next
      case other
      have fb: "first_byte l = bl_i (lex l)"
        using first_byte_nonws [OF valid] other(4) c ig by simp
      have "charToken l1 BYTE_TOKEN = (tok, l')"
        using "1.prems"(1) unf other by (auto simp: wrap_def prod_eq_iff)
      from charToken_start [OF this] show ?thesis using fb p1 by simp
    qed
  qed
qed

lemma ident_effect: "ident l st = (tok, l') \<Longrightarrow> pos l' = pos l \<and> tokens l' = tokens l @ [tok]"
  by (auto simp: ident_def token_def Let_def)

lemma charToken_effect: "charToken l tid = (tok, l') \<Longrightarrow> pos l' = pos l \<and> tokens l' = tokens l @ [tok]"
  by (auto simp: charToken_def token_def Let_def)

lemma number_effect: "number l = (tok, l') \<Longrightarrow> pos l' = pos l \<and> tokens l' = tokens l @ [tok]"
  by (auto simp: number_def token_def Let_def split: prod.splits)

lemma quotedValue_effect:
  "quotedValue l q = (r, l') \<Longrightarrow>
     pos l' = pos l \<and> (tokens l' = tokens l \<and> (\<exists>e. r = Inl e) \<or> (\<exists>tok. r = Inr tok \<and> tokens l' = tokens l @ [tok]))"
  by (auto simp: quotedValue_def Let_def split: prod.splits sum.splits)

lemma wrap_eq: "wrap p = (r, l') \<Longrightarrow> \<exists>tok. r = Inr tok \<and> p = (tok, l')"
  by (auto simp: wrap_def prod_eq_iff)

lemma readToken_effect:
  "readToken l = (r, l') \<Longrightarrow> read_effect l r l'"
proof (induction l rule: readToken.induct)
  case (1 l)
  show ?case
  proof (cases "lex_Valid (lex l)")
    case False
    then have "r = Inr eofToken \<and> l' = l" using "1.prems" by (subst (asm) readToken.simps) auto
    then show ?thesis using False by (simp add: read_effect_def)
  next
    case valid: True
    define c where "c = fst (lex_NextByte (lex l))"
    define l1 where "l1 = l\<lparr>lex := snd (lex_NextByte (lex l))\<rparr>"
    define l2 where "l2 = l1\<lparr>lex := lex_Rewind (lex l1)\<rparr>"
    have l1: "pos l1 = pos l" "tokens l1 = tokens l" by (simp_all add: l1_def)
    have l2: "pos l2 = pos l" "tokens l2 = tokens l" by (simp_all add: l2_def l1_def)
    have unf: "readToken l =
       (if c = CHR 0x27 \<or> c = CHR 0x22 then quotedValue l1 c
        else if c = CHR ''('' \<or> c = CHR '')'' \<or> c = CHR '','' then wrap (charToken l1 BYTE_TOKEN)
        else if c = CHR ''_'' then wrap (ident l1 (lex_Pos (lex l1) - 1))
        else if c = CHR ''$'' then wrap (ident l1 (lex_Pos (lex l1) - 1))
        else if ignoreSpaces l1 \<and> IsWhitespace c then readToken l1
        else if IsDigit c then wrap (number l2)
        else if IsAlpha c then wrap (ident l1 (lex_Pos (lex l1) - 1))
        else wrap (charToken l1 BYTE_TOKEN))"
      using valid by (subst readToken.simps) (simp add: c_def l1_def l2_def Let_def)
    consider
        (quoted) "c = CHR 0x27 \<or> c = CHR 0x22"
      | (punct) "\<not> (c = CHR 0x27 \<or> c = CHR 0x22)" "c = CHR ''('' \<or> c = CHR '')'' \<or> c = CHR '',''"
      | (under) "\<not> (c = CHR 0x27 \<or> c = CHR 0x22)" "\<not> (c = CHR ''('' \<or> c = CHR '')'' \<or> c = CHR '','')"
                "c = CHR ''_'' \<or> c = CHR ''$''"
      | (space) "\<not> (c = CHR 0x27 \<or> c = CHR 0x22)" "\<not> (c = CHR ''('' \<or> c = CHR '')'' \<or> c = CHR '','')"
                "c \<noteq> CHR ''_''" "c \<noteq> CHR ''$''" "ignoreSpaces l1 \<and> IsWhitespace c"
      | (digit) "\<not> (c = CHR 0x27 \<or> c = CHR 0x22)" "\<not> (c = CHR ''('' \<or> c = CHR '')'' \<or> c = CHR '','')"
                "c \<noteq> CHR ''_''" "c \<noteq> CHR ''$''" "\<not> (ignoreSpaces l1 \<and> IsWhitespace c)" "IsDigit c"
      | (alpha) "\<not> (c = CHR 0x27 \<or> c = CHR 0x22)" "\<not> (c = CHR ''('' \<or> c = CHR '')'' \<or> c = CHR '','')"
                "c \<noteq> CHR ''_''" "c \<noteq> CHR ''$''" "\<not> (ignoreSpaces l1 \<and> IsWhitespace c)" "\<not> IsDigit c" "IsAlpha c"
      | (other) "\<not> (c = CHR 0x27 \<or> c = CHR 0x22)" "\<not> (c = CHR ''('' \<or> c = CHR '')'' \<or> c = CHR '','')"
                "c \<noteq> CHR ''_''" "c \<noteq> CHR ''$''" "\<not> (ignoreSpaces l1 \<and> IsWhitespace c)" "\<not> IsDigit c" "\<not> IsAlpha c"
      by blast
    then show ?thesis
    proof cases
      case quoted
      then have eq: "readToken l = quotedValue l1 c" unfolding unf by auto
      have "quotedValue l1 c = (r, l')" unfolding eq [symmetric] by (rule "1.prems")
      from quotedValue_effect [OF this] show ?thesis unfolding read_effect_def l1 by blast
    next
      case punct
      then have eq: "readToken l = wrap (charToken l1 BYTE_TOKEN)" unfolding unf by auto
      have "wrap (charToken l1 BYTE_TOKEN) = (r, l')" unfolding eq [symmetric] by (rule "1.prems")
      from wrap_eq [OF this] obtain tok where "r = Inr tok" "charToken l1 BYTE_TOKEN = (tok, l')" by blast
      then show ?thesis using charToken_effect [of l1 BYTE_TOKEN tok l'] unfolding read_effect_def l1 by blast
    next
      case under
      then have eq: "readToken l = wrap (ident l1 (lex_Pos (lex l1) - 1))" unfolding unf by auto
      have "wrap (ident l1 (lex_Pos (lex l1) - 1)) = (r, l')" unfolding eq [symmetric] by (rule "1.prems")
      from wrap_eq [OF this] obtain tok where "r = Inr tok" "ident l1 (lex_Pos (lex l1) - 1) = (tok, l')" by blast
      then show ?thesis using ident_effect [of l1 _ tok l'] unfolding read_effect_def l1 by blast
    next
      case space
      have eq: "readToken l = readToken l1" unfolding unf using space by auto
      have r: "readToken l1 = (r, l')" unfolding eq [symmetric] by (rule "1.prems")
      have "read_effect l1 r l'"
      proof (rule "1.IH" [OF _ c_def l1_def space(1) space(2) space(3) space(4) space(5) r])
        show "\<not> \<not> lex_Valid (lex l)" using valid by blast
      qed
      then show ?thesis unfolding read_effect_def l1 .
    next
      case digit
      then have eq: "readToken l = wrap (number l2)" unfolding unf by auto
      have "wrap (number l2) = (r, l')" unfolding eq [symmetric] by (rule "1.prems")
      from wrap_eq [OF this] obtain tok where "r = Inr tok" "number l2 = (tok, l')" by blast
      then show ?thesis using number_effect [of l2 tok l'] unfolding read_effect_def l2 by blast
    next
      case alpha
      then have eq: "readToken l = wrap (ident l1 (lex_Pos (lex l1) - 1))" unfolding unf by auto
      have "wrap (ident l1 (lex_Pos (lex l1) - 1)) = (r, l')" unfolding eq [symmetric] by (rule "1.prems")
      from wrap_eq [OF this] obtain tok where "r = Inr tok" "ident l1 (lex_Pos (lex l1) - 1) = (tok, l')" by blast
      then show ?thesis using ident_effect [of l1 _ tok l'] unfolding read_effect_def l1 by blast
    next
      case other
      then have eq: "readToken l = wrap (charToken l1 BYTE_TOKEN)" unfolding unf by auto
      have "wrap (charToken l1 BYTE_TOKEN) = (r, l')" unfolding eq [symmetric] by (rule "1.prems")
      from wrap_eq [OF this] obtain tok where "r = Inr tok" "charToken l1 BYTE_TOKEN = (tok, l')" by blast
      then show ?thesis using charToken_effect [of l1 BYTE_TOKEN tok l'] unfolding read_effect_def l1 by blast
    qed
  qed
qed

lemma readToken_exhausted: "\<not> lex_Valid (lex l) \<Longrightarrow> readToken l = (Inr eofToken, l)"
  by (subst readToken.simps) simp

lemma PeekToken_inv:
  assumes "cursor_inv (l, seen)" and "PeekToken l = (r, l')"
  shows "cursor_inv (l', seen) \<and> (\<exists>ts. tokens l' = tokens l @ ts) \<and> pos l' = pos l \<and>
         (\<forall>tok. r = Inr tok \<longrightarrow> cursor_ok l' (Suc (pos l')))"
proof (cases "pos l < length (tokens l)")
  case True
  then have "l' = l" using assms(2) by (simp add: PeekToken_def)
  then show ?thesis using assms(1) True by (simp add: cursor_inv_def cursor_ok_def)
next
  case miss: False
  then have rt: "readToken l = (r, l')" using assms(2) by (simp add: PeekToken_def)
  show ?thesis
  proof (cases "lex_Valid (lex l)")
    case False
    then have "l' = l" using rt readToken_exhausted [of l] by simp
    then show ?thesis using assms(1) False by (simp add: cursor_inv_def cursor_ok_def)
  next
    case True
    then have le: "pos l \<le> length (tokens l)" and seen: "list_all (\<lambda>p. p \<le> length (tokens l)) seen"
      using assms(1) by (auto simp: cursor_inv_def cursor_ok_def list_all_iff)
    have eff: "read_effect l r l'" using readToken_effect [OF rt] .
    then have p: "pos l' = pos l" and ex: "\<exists>ts. tokens l' = tokens l @ ts"
      by (auto simp: read_effect_def)
    then have len: "length (tokens l) \<le> length (tokens l')" by auto
    have a: "cursor_ok l' (pos l')" using le len p by (simp add: cursor_ok_def)
    have b: "list_all (cursor_ok l') seen"
      using seen len by (auto simp: list_all_iff cursor_ok_def)
    have c: "\<forall>tok. r = Inr tok \<longrightarrow> cursor_ok l' (Suc (pos l'))"
      using eff le by (auto simp: read_effect_def cursor_ok_def)
    show ?thesis using a b c p ex by (simp add: cursor_inv_def)
  qed
qed

lemma apply_op_inv:
  assumes "cursor_inv (l, seen)" and "apply_op (l, seen) op = Some (l', seen')"
  shows "cursor_inv (l', seen') \<and> (\<exists>ts. tokens l' = tokens l @ ts)"
proof (cases op)
  case OpPeekToken
  obtain r l1 where p: "PeekToken l = (r, l1)" by (cases "PeekToken l")
  then have "l' = l1" "seen' = seen" using assms(2) OpPeekToken by simp_all
  then show ?thesis using PeekToken_inv [OF assms(1) p] by simp
next
  case OpNextToken
  obtain r l1 where p: "PeekToken l = (r, l1)" by (cases "PeekToken l")
  note inv = PeekToken_inv [OF assms(1) p]
  have s: "seen' = seen" using assms(2) OpNextToken by simp
  show ?thesis
  proof (cases r)
    case (Inl e)
    then have "l' = l1" using assms(2) OpNextToken p by (simp add: NextToken_def)
    then show ?thesis using inv s by simp
  next
    case (Inr tok)
    then have l': "l' = l1\<lparr>pos := pos l1 + 1\<rparr>" using assms(2) OpNextToken p by (simp add: NextToken_def)
    have "cursor_ok l1 (Suc (pos l1))" using inv Inr by blast
    then show ?thesis using inv s l' by (simp add: cursor_inv_def cursor_ok_def list_all_iff)
  qed
next
  case OpPos
  then have "l' = l" "seen' = pos l # seen" using assms(2) by (auto simp: Pos_def)
  then show ?thesis using assms(1) by (simp add: cursor_inv_def)
next
  case (OpResetPos p)
  then have "p \<in> set seen" "l' = l\<lparr>pos := p\<rparr>" "seen' = seen"
    using assms(2) by (auto simp: ResetPos_def split: if_splits)
  then show ?thesis using assms(1) by (auto simp: cursor_inv_def cursor_ok_def list_all_iff)
qed

lemma run_ops_inv:
  "cursor_inv st \<Longrightarrow> run_ops st ops = Some st' \<Longrightarrow>
     cursor_inv st' \<and> (\<exists>ts. tokens (fst st') = tokens (fst st) @ ts)"
proof (induction ops arbitrary: st)
  case Nil
  then show ?case by simp
next
  case (Cons op ops)
  then obtain st1 where a: "apply_op st op = Some st1" and r: "run_ops st1 ops = Some st'"
    by (auto split: option.splits)
  have "cursor_inv st1 \<and> (\<exists>ts. tokens (fst st1) = tokens (fst st) @ ts)"
    using apply_op_inv [of "fst st" "snd st" op "fst st1" "snd st1"] Cons.prems(1) a by simp
  moreover from this have "cursor_inv st' \<and> (\<exists>ts. tokens (fst st') = tokens (fst st1) @ ts)"
    using Cons.IH [of st1] r by simp
  ultimately show ?case by auto
qed


lemma newLexer_inv: "cursor_inv (newLexer s, []) \<and> cursor_inv (IgnoreSpaces (newLexer s), [])"
  by (simp add: cursor_inv_def cursor_ok_def newLexer_def Reset_def IgnoreSpaces_def)

text \<open>
  Claim C3, as the code has it. After every sequence of \<open>PeekToken\<close>, \<open>NextToken\<close>, \<open>Pos\<close>
  and \<open>ResetPos\<close> to a position that \<open>Pos\<close> has returned, on a new lexer for any source
  string, the position is at most the length of the cache or the input is exhausted;
  when the position is beyond the cache, \<open>PeekToken\<close> returns the end-of-input token and
  changes nothing. The cache after any further operations extends the cache before
  them: no token is removed.
\<close>

theorem cursor_bound:
  "(l0 = newLexer s \<or> l0 = IgnoreSpaces (newLexer s)) \<longrightarrow>
   run_ops (l0, []) ops1 = Some (l1, seen1) \<longrightarrow>
   run_ops (l1, seen1) ops2 = Some (l2, seen2) \<longrightarrow>
     (pos l2 \<le> length (tokens l2) \<or> \<not> lex_Valid (lex l2)) \<and>
     (\<exists>ts. tokens l2 = tokens l1 @ ts) \<and>
     (length (tokens l2) < pos l2 \<longrightarrow> PeekToken l2 = (Inr eofToken, l2))"
proof (intro impI)
  assume l0: "l0 = newLexer s \<or> l0 = IgnoreSpaces (newLexer s)"
    and r1: "run_ops (l0, []) ops1 = Some (l1, seen1)"
    and r2: "run_ops (l1, seen1) ops2 = Some (l2, seen2)"
  have "cursor_inv (l0, [])" using l0 newLexer_inv [of s] by blast
  then have i1: "cursor_inv (l1, seen1)" using run_ops_inv [OF _ r1] by blast
  then have i2: "cursor_inv (l2, seen2) \<and> (\<exists>ts. tokens (fst (l2, seen2)) = tokens (fst (l1, seen1)) @ ts)"
    by (rule run_ops_inv [OF _ r2])
  then have ok: "pos l2 \<le> length (tokens l2) \<or> \<not> lex_Valid (lex l2)"
    by (simp add: cursor_inv_def cursor_ok_def)
  have peek: "PeekToken l2 = (Inr eofToken, l2)" if "length (tokens l2) < pos l2"
    using that ok readToken_exhausted [of l2] by (simp add: PeekToken_def)
  show "(pos l2 \<le> length (tokens l2) \<or> \<not> lex_Valid (lex l2)) \<and>
     (\<exists>ts. tokens l2 = tokens l1 @ ts) \<and>
     (length (tokens l2) < pos l2 \<longrightarrow> PeekToken l2 = (Inr eofToken, l2))"
    using ok i2 peek by simp
qed

lemma run_example_1:
  "run_ops (newLexer ''a b'', []) [OpPos, OpNextToken, OpNextToken] =
     Some (\<lparr>source = ''a b'', lex = \<lparr>bl_s = ''a b'', bl_i = 2\<rparr>, ignoreSpaces = False,
             tokens = [\<lparr>ID = IDENT_TOKEN, Text = ''a'', Start = 0\<rparr>,
                       \<lparr>ID = BYTE_TOKEN, Text = '' '', Start = 1\<rparr>],
             pos = 2\<rparr>, [0])"
  by code_simp

lemma run_example_2:
  "run_ops (\<lparr>source = ''a b'', lex = \<lparr>bl_s = ''a b'', bl_i = 2\<rparr>, ignoreSpaces = False,
             tokens = [\<lparr>ID = IDENT_TOKEN, Text = ''a'', Start = 0\<rparr>,
                       \<lparr>ID = BYTE_TOKEN, Text = '' '', Start = 1\<rparr>],
             pos = 2\<rparr>, [0]) [OpResetPos 0, OpNextToken, OpNextToken, OpNextToken, OpNextToken] =
     Some (\<lparr>source = ''a b'', lex = \<lparr>bl_s = ''a b'', bl_i = 3\<rparr>, ignoreSpaces = False,
             tokens = [\<lparr>ID = IDENT_TOKEN, Text = ''a'', Start = 0\<rparr>,
                       \<lparr>ID = BYTE_TOKEN, Text = '' '', Start = 1\<rparr>,
                       \<lparr>ID = IDENT_TOKEN, Text = ''b'', Start = 2\<rparr>],
             pos = 4\<rparr>, [0])"
  by code_simp

text \<open>
  Claim C3 as stated fails: on the source \<open>''a''\<close> the second \<open>NextToken\<close> returns the
  end-of-input token, which is not cached, and moves the position to 2 while the cache
  holds one token.
\<close>

theorem cursor_past_cache_counterexample:
  "run_ops (newLexer ''a'', []) [OpNextToken, OpNextToken] =
     Some (\<lparr>source = ''a'', lex = \<lparr>bl_s = ''a'', bl_i = 1\<rparr>, ignoreSpaces = False,
             tokens = [\<lparr>ID = IDENT_TOKEN, Text = ''a'', Start = 0\<rparr>], pos = 2\<rparr>, []) \<and>
   \<not> (2::nat) \<le> length [\<lparr>ID = IDENT_TOKEN, Text = ''a'', Start = 0\<rparr>]"
  by code_simp

text \<open>
  The statement of C3 on the source \<open>''a b''\<close>: the position is recorded, two tokens are
  read, the cursor is reset and four tokens are read, the last of them at the end of
  the input.
\<close>

theorem cursor_bound_witness:
  "run_ops (newLexer ''a b'', []) [OpPos, OpNextToken, OpNextToken] =
     Some (\<lparr>source = ''a b'', lex = \<lparr>bl_s = ''a b'', bl_i = 2\<rparr>, ignoreSpaces = False,
             tokens = [\<lparr>ID = IDENT_TOKEN, Text = ''a'', Start = 0\<rparr>,
                       \<lparr>ID = BYTE_TOKEN, Text = '' '', Start = 1\<rparr>],
             pos = 2\<rparr>, [0]) \<and>
   run_ops (\<lparr>source = ''a b'', lex = \<lparr>bl_s = ''a b'', bl_i = 2\<rparr>, ignoreSpaces = False,
             tokens = [\<lparr>ID = IDENT_TOKEN, Text = ''a'', Start = 0\<rparr>,
                       \<lparr>ID = BYTE_TOKEN, Text = '' '', Start = 1\<rparr>],
             pos = 2\<rparr>, [0]) [OpResetPos 0, OpNextToken, OpNextToken, OpNextToken, OpNextToken] =
     Some (\<lparr>source = ''a b'', lex = \<lparr>bl_s = ''a b'', bl_i = 3\<rparr>, ignoreSpaces = False,
             tokens = [\<lparr>ID = IDENT_TOKEN, Text = ''a'', Start = 0\<rparr>,
                       \<lparr>ID = BYTE_TOKEN, Text = '' '', Start = 1\<rparr>,
                       \<lparr>ID = IDENT_TOKEN, Text = ''b'', Start = 2\<rparr>],
             pos = 4\<rparr>, [0]) \<and>
   \<not> lex_Valid \<lparr>bl_s = ''a b'', bl_i = 3\<rparr> \<and>
   PeekToken \<lparr>source = ''a b'', lex = \<lparr>bl_s = ''a b'', bl_i = 3\<rparr>, ignoreSpaces = False,
             tokens = [\<lparr>ID = IDENT_TOKEN, Text = ''a'', Start = 0\<rparr>,
                       \<lparr>ID = BYTE_TOKEN, Text = '' '', Start = 1\<rparr>,
                       \<lparr>ID = IDENT_TOKEN, Text = ''b'', Start = 2\<rparr>],
             pos = 4\<rparr> =
     (Inr eofToken,
      \<lparr>source = ''a b'', lex = \<lparr>bl_s = ''a b'', bl_i = 3\<rparr>, ignoreSpaces = False,
             tokens = [\<lparr>ID = IDENT_TOKEN, Text = ''a'', Start = 0\<rparr>,
                       \<lparr>ID = BYTE_TOKEN, Text = '' '', Start = 1\<rparr>,
                       \<lparr>ID = IDENT_TOKEN, Text = ''b'', Start = 2\<rparr>],
             pos = 4\<rparr>)"
proof -
  note t = cursor_bound [rule_format, OF disjI1 [OF refl] run_example_1 run_example_2]
  have v: "\<not> lex_Valid \<lparr>bl_s = ''a b'', bl_i = 3\<rparr>" by (simp add: lex_Valid_def)
  show ?thesis using t run_example_1 run_example_2 v by simp
qed

lemma read_example_number:
  "readToken (IgnoreSpaces (newLexer ''  12.5 x'')) =
     (Inr \<lparr>ID = NUMBER_TOKEN, Text = ''12.5'', Start = 6\<rparr>,
      \<lparr>source = ''  12.5 x'', lex = \<lparr>bl_s = ''  12.5 x'', bl_i = 6\<rparr>, ignoreSpaces = True,
        tokens = [\<lparr>ID = NUMBER_TOKEN, Text = ''12.5'', Start = 6\<rparr>], pos = 0\<rparr>)"
  by code_simp

lemma read_example_ident:
  "readToken \<lparr>source = ''  12.5 x'', lex = \<lparr>bl_s = ''  12.5 x'', bl_i = 6\<rparr>, ignoreSpaces = True,
        tokens = [\<lparr>ID = NUMBER_TOKEN, Text = ''12.5'', Start = 6\<rparr>], pos = 0\<rparr> =
     (Inr \<lparr>ID = IDENT_TOKEN, Text = ''x'', Start = 7\<rparr>,
      \<lparr>source = ''  12.5 x'', lex = \<lparr>bl_s = ''  12.5 x'', bl_i = 8\<rparr>, ignoreSpaces = True,
        tokens = [\<lparr>ID = NUMBER_TOKEN, Text = ''12.5'', Start = 6\<rparr>,
                  \<lparr>ID = IDENT_TOKEN, Text = ''x'', Start = 7\<rparr>], pos = 0\<rparr>)"
  by code_simp

lemma first_byte_examples:
  "first_byte (IgnoreSpaces (newLexer ''  12.5 x'')) = 2 \<and>
   first_byte \<lparr>source = ''  12.5 x'', lex = \<lparr>bl_s = ''  12.5 x'', bl_i = 6\<rparr>, ignoreSpaces = True,
        tokens = [\<lparr>ID = NUMBER_TOKEN, Text = ''12.5'', Start = 6\<rparr>], pos = 0\<rparr> = 7"
  by code_simp

text \<open>
  Claim C10. The \<open>Start\<close> of a number token is the offset one past its last byte: the
  offset of its first byte plus the length of its text, and the text is the source from
  the first byte up to \<open>Start\<close>. The \<open>Start\<close> of an identifier, byte or quoted-value
  token is the offset of its first byte.
\<close>

theorem token_start_offsets:
  "readToken l = (Inr tok, l') \<longrightarrow>
     (ID tok = NUMBER_TOKEN \<longrightarrow>
        Start tok = first_byte l + length (Text tok) \<and>
        Text tok = slice (bl_s (lex l)) (first_byte l) (Start tok)) \<and>
     (ID tok = IDENT_TOKEN \<or> ID tok = BYTE_TOKEN \<or> ID tok = VALUE_TOKEN \<longrightarrow>
        Start tok = first_byte l)"
proof (intro impI conjI)
  assume r: "readToken l = (Inr tok, l')" and n: "ID tok = NUMBER_TOKEN"
  then have "ID tok \<noteq> EOF_TOKEN" by simp
  from readToken_start [OF r this] n
  show "Start tok = first_byte l + length (Text tok)"
    and "Text tok = slice (bl_s (lex l)) (first_byte l) (Start tok)" by blast+
next
  assume r: "readToken l = (Inr tok, l')"
    and n: "ID tok = IDENT_TOKEN \<or> ID tok = BYTE_TOKEN \<or> ID tok = VALUE_TOKEN"
  then have "ID tok \<noteq> EOF_TOKEN" "ID tok \<noteq> NUMBER_TOKEN" by auto
  with readToken_start [OF r] show "Start tok = first_byte l" by blast
qed

text \<open>
  The statement of C10 on the source \<open>''  12.5 x''\<close> with spaces ignored: the number
  \<open>12.5\<close> begins at offset 2 and has \<open>Start\<close> 6, the identifier \<open>x\<close> begins at offset 7
  and has \<open>Start\<close> 7.
\<close>

theorem token_start_offsets_witness:
  "readToken (IgnoreSpaces (newLexer ''  12.5 x'')) =
     (Inr \<lparr>ID = NUMBER_TOKEN, Text = ''12.5'', Start = 6\<rparr>,
      \<lparr>source = ''  12.5 x'', lex = \<lparr>bl_s = ''  12.5 x'', bl_i = 6\<rparr>, ignoreSpaces = True,
        tokens = [\<lparr>ID = NUMBER_TOKEN, Text = ''12.5'', Start = 6\<rparr>], pos = 0\<rparr>) \<and>
   first_byte (IgnoreSpaces (newLexer ''  12.5 x'')) = 2 \<and>
   Start \<lparr>ID = NUMBER_TOKEN, Text = ''12.5'', Start = 6\<rparr> =
     first_byte (IgnoreSpaces (newLexer ''  12.5 x'')) +
     length (Text \<lparr>ID = NUMBER_TOKEN, Text = ''12.5'', Start = 6\<rparr>) \<and>
   readToken \<lparr>source = ''  12.5 x'', lex = \<lparr>bl_s = ''  12.5 x'', bl_i = 6\<rparr>, ignoreSpaces = True,
        tokens = [\<lparr>ID = NUMBER_TOKEN, Text = ''12.5'', Start = 6\<rparr>], pos = 0\<rparr> =
     (Inr \<lparr>ID = IDENT_TOKEN, Text = ''x'', Start = 7\<rparr>,
      \<lparr>source = ''  12.5 x'', lex = \<lparr>bl_s = ''  12.5 x'', bl_i = 8\<rparr>, ignoreSpaces = True,
        tokens = [\<lparr>ID = NUMBER_TOKEN, Text = ''12.5'', Start = 6\<rparr>,
                  \<lparr>ID = IDENT_TOKEN, Text = ''x'', Start = 7\<rparr>], pos = 0\<rparr>) \<and>
   Start \<lparr>ID = IDENT_TOKEN, Text = ''x'', Start = 7\<rparr> =
     first_byte \<lparr>source = ''  12.5 x'', lex = \<lparr>bl_s = ''  12.5 x'', bl_i = 6\<rparr>, ignoreSpaces = True,
        tokens = [\<lparr>ID = NUMBER_TOKEN, Text = ''12.5'', Start = 6\<rparr>], pos = 0\<rparr>"
proof -
  have n: "ID \<lparr>ID = NUMBER_TOKEN, Text = ''12.5'', Start = 6\<rparr> = NUMBER_TOKEN" by simp
  have i: "ID \<lparr>ID = IDENT_TOKEN, Text = ''x'', Start = 7\<rparr> = IDENT_TOKEN" by simp
  have a: "Start \<lparr>ID = NUMBER_TOKEN, Text = ''12.5'', Start = 6\<rparr> =
     first_byte (IgnoreSpaces (newLexer ''  12.5 x'')) +
     length (Text \<lparr>ID = NUMBER_TOKEN, Text = ''12.5'', Start = 6\<rparr>)"
    using token_start_offsets [rule_format, OF read_example_number] n by blast
  have b: "Start \<lparr>ID = IDENT_TOKEN, Text = ''x'', Start = 7\<rparr> =
     first_byte \<lparr>source = ''  12.5 x'', lex = \<lparr>bl_s = ''  12.5 x'', bl_i = 6\<rparr>, ignoreSpaces = True,
        tokens = [\<lparr>ID = NUMBER_TOKEN, Text = ''12.5'', Start = 6\<rparr>], pos = 0\<rparr>"
    using token_start_offsets [rule_format, OF read_example_ident] i by blast
  show ?thesis
    using a b read_example_number read_example_ident first_byte_examples by (intro conjI) blast+
qed

end
